theory Spec2Isabelle
  imports
    Main
    "HOL-Library.Word"
    "HOL-Library.Sublist"
    "HOL-Library.Char_ord"
    "HOL-Library.List_Lexorder"
    "HOL-Library.Multiset"
begin

unbundle bit_operations_syntax

section \<open>Strings\<close>

text \<open>
  Python \<open>str\<close> values are modelled as \<open>string\<close> (lists of 8-bit characters, the
  UTF-8 bytes of the text). Case conversion acts on the ASCII letters and leaves every
  other byte alone; comparison of strings is the lexicographic order on bytes, which on
  UTF-8 agrees with Python's order on code points.
\<close>

definition bslash :: char where
  "bslash = CHR 0x5C"

definition squote :: char where
  "squote = CHR 0x27"

definition dquote :: char where
  "dquote = CHR 0x22"

definition lower_char :: "char \<Rightarrow> char" where
  "lower_char c =
     (case map_of (zip ''ABCDEFGHIJKLMNOPQRSTUVWXYZ'' ''abcdefghijklmnopqrstuvwxyz'') c of
        Some d \<Rightarrow> d
      | None \<Rightarrow> c)"

definition upper_char :: "char \<Rightarrow> char" where
  "upper_char c =
     (case map_of (zip ''abcdefghijklmnopqrstuvwxyz'' ''ABCDEFGHIJKLMNOPQRSTUVWXYZ'') c of
        Some d \<Rightarrow> d
      | None \<Rightarrow> c)"

text \<open>\<open>s.lower()\<close> and \<open>s.upper()\<close>.\<close>

definition lower :: "string \<Rightarrow> string" where
  "lower s = map lower_char s"

definition upper :: "string \<Rightarrow> string" where
  "upper s = map upper_char s"

text \<open>\<open>sub in s\<close>, \<open>s.startswith(p)\<close>, \<open>s.endswith(p)\<close>.\<close>

definition contains :: "string \<Rightarrow> string \<Rightarrow> bool" where
  "contains s sub = sublist sub s"

definition startswith :: "string \<Rightarrow> string \<Rightarrow> bool" where
  "startswith s p = prefix p s"

definition endswith :: "string \<Rightarrow> string \<Rightarrow> bool" where
  "endswith s p = suffix p s"

text \<open>\<open>sep.join(xs)\<close>.\<close>

fun join_with :: "string \<Rightarrow> string list \<Rightarrow> string" where
  "join_with sep [] = []"
| "join_with sep [x] = x"
| "join_with sep (x # y # ys) = x @ sep @ join_with sep (y # ys)"

text \<open>
  \<open>s.split(sep)\<close> for a non-empty separator: the separator is looked for from the left,
  occurrences do not overlap, and the result always has at least one element.
\<close>

fun cons_first :: "char \<Rightarrow> string list \<Rightarrow> string list" where
  "cons_first x [] = [x] # []"
| "cons_first x (w # ws) = (x # w) # ws"

function split_sep :: "string \<Rightarrow> string \<Rightarrow> string list" where
  "split_sep sep [] = [] # []"
| "split_sep sep (x # xs) =
     (if sep \<noteq> [] \<and> prefix sep (x # xs)
      then [] # split_sep sep (drop (length sep) (x # xs))
      else cons_first x (split_sep sep xs))"
  by pat_completeness auto
termination
  by (relation "measure (\<lambda>(sep, s). length s)") (auto simp: neq_Nil_conv)

text \<open>\<open>s.split(sep, maxsplit)\<close>: at most \<open>maxsplit\<close> cuts, the rest is the last element.\<close>

function split_sep_max :: "nat \<Rightarrow> string \<Rightarrow> string \<Rightarrow> string list" where
  "split_sep_max 0 sep s = [s]"
| "split_sep_max (Suc n) sep [] = [] # []"
| "split_sep_max (Suc n) sep (x # xs) =
     (if sep \<noteq> [] \<and> prefix sep (x # xs)
      then [] # split_sep_max n sep (drop (length sep) (x # xs))
      else cons_first x (split_sep_max (Suc n) sep xs))"
  by pat_completeness auto
termination
  by (relation "measure (\<lambda>(n, sep, s). length s)") (auto simp: neq_Nil_conv)

text \<open>
  \<open>s.split(maxsplit=n)\<close> without a separator: runs of white space separate the words,
  leading white space is dropped, and after \<open>n\<close> words the rest of the string (its
  leading white space dropped, its trailing white space kept) is the last element.
\<close>

definition isspace :: "char \<Rightarrow> bool" where
  "isspace c = (c \<in> set [CHR 0x09, CHR 0x0A, CHR 0x0B, CHR 0x0C, CHR 0x0D,
                           CHR 0x1C, CHR 0x1D, CHR 0x1E, CHR 0x1F, CHR 0x20])"

fun split_ws_max :: "nat \<Rightarrow> string \<Rightarrow> string list" where
  "split_ws_max 0 s =
     (let r = dropWhile isspace s in if r = [] then [] else [r])"
| "split_ws_max (Suc n) s =
     (let r = dropWhile isspace s in
      if r = [] then []
      else takeWhile (\<lambda>c. \<not> isspace c) r # split_ws_max n (dropWhile (\<lambda>c. \<not> isspace c) r))"

text \<open>\<open>s.rsplit(c, 1)[-1]\<close>: what follows the last \<open>c\<close>, or all of \<open>s\<close>.\<close>

definition rsplit1_last :: "char \<Rightarrow> string \<Rightarrow> string" where
  "rsplit1_last c s = rev (takeWhile (\<lambda>x. x \<noteq> c) (rev s))"

text \<open>\<open>s.isdecimal()\<close> and \<open>int(s)\<close> on decimal digits, \<open>str(n)\<close> for a natural number.\<close>

definition digit_val :: "char \<Rightarrow> nat option" where
  "digit_val c = map_of (zip ''0123456789'' [0, 1, 2, 3, 4, 5, 6, 7, 8, 9]) c"

definition isdecimal :: "string \<Rightarrow> bool" where
  "isdecimal s = (s \<noteq> [] \<and> list_all (\<lambda>c. digit_val c \<noteq> None) s)"

definition int_of_decimal :: "string \<Rightarrow> nat" where
  "int_of_decimal s = foldl (\<lambda>acc c. 10 * acc + (case digit_val c of Some d \<Rightarrow> d | None \<Rightarrow> 0)) 0 s"

definition digit_char :: "nat \<Rightarrow> char" where
  "digit_char n = ''0123456789'' ! n"

function show_nat :: "nat \<Rightarrow> string" where
  "show_nat n = (if n < 10 then [digit_char n] else show_nat (n div 10) @ [digit_char (n mod 10)])"
  by pat_completeness auto
termination
  by (relation "measure id") auto

declare show_nat.simps [simp del]

section \<open>Paths\<close>

text \<open>
  A \<open>pathlib\<close> path of the Windows flavour (the scanner looks for \<open>Scripts\<close> followed
  by a backslash in the text of a path): an anchor such as \<open>C:\<close> with its backslash,
  empty for a relative path, and the names below it. \<open>str\<close> joins the names with a
  backslash; the empty relative path prints as a dot.
\<close>

datatype path = Path (anchor: string) (names: "string list")

definition path_str :: "path \<Rightarrow> string" where
  "path_str p =
     (if anchor p = [] \<and> names p = [] then ''.''
      else anchor p @ join_with [bslash] (names p))"

definition drive_c :: string where
  "drive_c = ''C:'' @ [bslash]"

text \<open>\<open>p / name\<close> for a plain name, and for a relative path of several names.\<close>

definition joinpath :: "path \<Rightarrow> string list \<Rightarrow> path" where
  "joinpath p ns = Path (anchor p) (names p @ ns)"

text \<open>\<open>p.parts\<close>, \<open>p.parent\<close>, \<open>p.name\<close>.\<close>

definition path_parts :: "path \<Rightarrow> string list" where
  "path_parts p = (if anchor p = [] then names p else anchor p # names p)"

definition parent :: "path \<Rightarrow> path" where
  "parent p = Path (anchor p) (butlast (names p))"

definition path_name :: "path \<Rightarrow> string" where
  "path_name p = (if names p = [] then [] else last (names p))"

text \<open>
  \<open>p.suffix\<close>: from the last dot of the name on, unless that dot is the first or the
  last character of the name.
\<close>

fun rfind :: "char \<Rightarrow> string \<Rightarrow> nat option" where
  "rfind c [] = None"
| "rfind c (x # xs) =
     (case rfind c xs of
        Some i \<Rightarrow> Some (Suc i)
      | None \<Rightarrow> if x = c then Some 0 else None)"

definition path_suffix :: "path \<Rightarrow> string" where
  "path_suffix p =
     (let name = path_name p in
      case rfind CHR ''.'' name of
        None \<Rightarrow> []
      | Some i \<Rightarrow> if 0 < i \<and> i < length name - 1 then drop i name else [])"

section \<open>Exceptions and issue categories\<close>

datatype py_exception =
    OSError | PermissionError | ValueError | IndexError | StructError
  | TimeoutError | SubprocessError

text \<open>The keys of the \<open>issue_lists\<close> dictionaries.\<close>

datatype category =
    cleanup | animdata | tex_dims | tex_frmt | snd_frmt | xse_file | previs | ba2_frmt

text \<open>
  One \<open>issue_lists[key].add(line)\<close> is an event; a dictionary of sets is a function
  from the keys to sets of lines.
\<close>

type_synonym event = "category \<times> string"

type_synonym issue_lists = "category \<Rightarrow> string set"

definition empty_issues :: issue_lists where
  "empty_issues = (\<lambda>c. {})"

definition add_issue :: "event \<Rightarrow> issue_lists \<Rightarrow> issue_lists" where
  "add_issue e reg = reg (fst e := insert (snd e) (reg (fst e)))"

definition add_all :: "event list \<Rightarrow> issue_lists \<Rightarrow> issue_lists" where
  "add_all es reg = fold add_issue es reg"

section \<open>Texture header check\<close>

type_synonym byte = "8 word"

text \<open>\<open>data[i:j]\<close> and \<open>struct.unpack("<I", buf)[0]\<close>, which wants exactly four bytes.\<close>

definition slice :: "nat \<Rightarrow> nat \<Rightarrow> 'a list \<Rightarrow> 'a list" where
  "slice i j xs = take (j - i) (drop i xs)"

definition unpack_uint32_le :: "byte list \<Rightarrow> py_exception + 32 word" where
  "unpack_uint32_le buf =
     (case buf of
        [b0, b1, b2, b3] \<Rightarrow>
          Inr (ucast b0 OR push_bit 8 (ucast b1) OR push_bit 16 (ucast b2) OR push_bit 24 (ucast b3))
      | _ \<Rightarrow> Inl StructError)"

definition dds_magic :: "byte list" where
  "dds_magic = [0x44, 0x44, 0x53, 0x20]"

text \<open>
  \<open>check_single_dds\<close>: the file system gives the bytes of a file, or nothing when
  opening or reading it raises \<open>OSError\<close> (caught, a warning is shown). A header too
  short to unpack raises \<open>struct.error\<close>, which leaves the coroutine.
\<close>

definition check_single_dds ::
    "(path \<Rightarrow> byte list option) \<Rightarrow> path \<Rightarrow> path \<Rightarrow> py_exception + event list" where
  "check_single_dds files file_path relative_path =
     (case files file_path of
        None \<Rightarrow> Inr []
      | Some content \<Rightarrow>
          (let dds_data = take 20 content in
           if take 4 dds_data = dds_magic then
             (case unpack_uint32_le (slice 12 16 dds_data) of
                Inl e \<Rightarrow> Inl e
              | Inr width \<Rightarrow>
                  (case unpack_uint32_le (slice 16 20 dds_data) of
                     Inl e \<Rightarrow> Inl e
                   | Inr height \<Rightarrow>
                       if unat width mod 2 \<noteq> 0 \<or> unat height mod 2 \<noteq> 0
                       then Inr [(tex_dims,
                                  ''  - '' @ path_str relative_path @ '' ('' @ show_nat (unat width)
                                    @ ''x'' @ show_nat (unat height) @ '')'')]
                       else Inr []))
           else Inr []))"

text \<open>
  \<open>_check_dds_batch_async\<close> gathers the checks with \<open>return_exceptions=True\<close>: a check
  that raised contributes nothing, the others are unaffected.
\<close>

definition swallow :: "py_exception + event list \<Rightarrow> event list" where
  "swallow r = (case r of Inl e \<Rightarrow> [] | Inr es \<Rightarrow> es)"

definition check_dds_batch :: "(path \<Rightarrow> byte list option) \<Rightarrow> (path \<times> path) list \<Rightarrow> event list" where
  "check_dds_batch files dds_files =
     concat (map (\<lambda>(file_path, relative_path). swallow (check_single_dds files file_path relative_path))
                 dds_files)"

section \<open>Settings and the outside world\<close>

text \<open>
  Everything a scan reads from outside is a field of one record: the settings, the
  dry-run switch \<open>TEST_MODE\<close>, the directory tree as \<open>Path.walk\<close> returns it, the
  bytes of the files as they are when the scan starts, the outcome of each move, what the
  archive tool prints, and the order in which the file operations of concurrent tasks take
  place.
\<close>

datatype io_result = IoOk | IoPermissionError | IoOSError

text \<open>
  What running the archive tool gives: a time-out, an error raised while starting or
  talking to the process (\<open>OSError\<close>, \<open>ValueError\<close>, \<open>SubprocessError\<close>), or its exit
  code with what it wrote to standard output and standard error.
\<close>

datatype proc_result =
    ProcTimeout
  | ProcRaised py_exception
  | ProcDone int string string

text \<open>
  \<open>Path.walk\<close> yields directories below its top: a directory is given by its names
  below the mod folder, so that \<open>root\<close> is the mod folder joined with these names and
  \<open>root.relative_to(mod_path)\<close> is the relative path of these names.
\<close>

type_synonym dir_data = "string list \<times> string list \<times> string list"

text \<open>
  The file operations that the tasks of the loose-file scan hand to the event loop: the
  move of a \<open>fomod\<close> folder and the move of a documentation file, each given by the names
  of its directory below the mod folder and its own name, and the read of a texture, given
  by its path and its path below the mod folder.
\<close>

datatype fs_action =
    MoveFomod "string list" string
  | MoveFile "string list" string
  | CheckDds path path

text \<open>
  The field \<open>walk\<close> is what \<open>Path.walk(top_down=False)\<close> yields from a top: children
  before parents. \<open>Path.walk\<close> is called without \<open>on_error\<close>, so it drops the \<open>OSError\<close>
  of a directory it cannot open and goes on: a top that is missing or cannot be opened
  yields nothing, the empty list, where a top that is an empty folder yields itself. The
  value \<open>None\<close> stands for an \<open>OSError\<close> that leaves the walk all the same, raised while an
  opened directory is being read.

  The field \<open>file_bytes\<close> is what a file holds when the scan starts, \<open>None\<close> when opening
  or reading it raises \<open>OSError\<close>; \<open>move_result\<close> is how \<open>shutil.move\<close> ends for a source
  that is still in its place.

  The field \<open>run_bsarch\<close> is how a run of the archive tool on an archive with a
  sub-command ends.

  The field \<open>turn\<close> is when a file operation of a wave of tasks takes place: the
  operations of a wave take place by increasing turn, those of the same turn in the order
  in which the tasks were created.
\<close>

record world =
  xse_acronym_setting :: "string option"
  xse_scriptfiles_setting :: "(string \<times> string) list option"
  mods_folder_path :: "path option"
  test_mode :: bool
  local_dir :: path
  main_yaml_str :: "string \<Rightarrow> string option"
  main_yaml_list :: "string \<Rightarrow> string list option"
  walk :: "path \<Rightarrow> dir_data list option"
  path_exists :: "path \<Rightarrow> bool"
  file_bytes :: "path \<Rightarrow> byte list option"
  mkdir_result :: "path \<Rightarrow> io_result"
  move_result :: "path \<Rightarrow> path \<Rightarrow> io_result"
  run_bsarch :: "path \<Rightarrow> path \<Rightarrow> string \<Rightarrow> proc_result"
  turn :: "fs_action \<Rightarrow> nat"
  glob_logs :: "path \<Rightarrow> path list"
  read_lines :: "path \<Rightarrow> string list option"

text \<open>
  \<open>get_scan_settings\<close>: the acronym falls back to \<open>XSE\<close> and the script files to the
  empty dictionary when the setting is not of the expected type.
\<close>

definition get_scan_settings :: "world \<Rightarrow> string \<times> (string \<times> string) list \<times> path option" where
  "get_scan_settings w =
     (let xse_acronym = (case xse_acronym_setting w of Some a \<Rightarrow> a | None \<Rightarrow> ''XSE'');
          xse_scriptfiles = (case xse_scriptfiles_setting w of Some d \<Rightarrow> d | None \<Rightarrow> [])
      in (xse_acronym, xse_scriptfiles, mods_folder_path w))"

text \<open>\<open>str(yaml_settings(str, YAML.Main, key))\<close>: a missing entry prints as \<open>None\<close>.\<close>

definition yaml_warning :: "world \<Rightarrow> string \<Rightarrow> string" where
  "yaml_warning w key = (case main_yaml_str w key of Some s \<Rightarrow> s | None \<Rightarrow> ''None'')"

section \<open>Message templates and the report\<close>

definition warn_sign :: string where
  "warn_sign = [CHR 0xE2, CHR 0x9A, CHR 0xA0, CHR 0xEF, CHR 0xB8, CHR 0x8F]"

definition play_sign :: string where
  "play_sign = [CHR 0xE2, CHR 0x96, CHR 0xB6, CHR 0xEF, CHR 0xB8, CHR 0x8F]"

definition quest_sign :: string where
  "quest_sign = [CHR 0xE2, CHR 0x9D, CHR 0x93]"

definition page_sign :: string where
  "page_sign = [CHR 0xF0, CHR 0x9F, CHR 0x93, CHR 0x84]"

definition cross_sign :: string where
  "cross_sign = [CHR 0xE2, CHR 0x9D, CHR 0x8C]"

definition base_messages :: "category \<Rightarrow> string list option" where
  "base_messages issue_type =
     (case issue_type of
        cleanup \<Rightarrow> None
      | animdata \<Rightarrow> None
      | tex_dims \<Rightarrow> Some
          [''\<newline># '' @ warn_sign @ '' DDS DIMENSIONS ARE NOT DIVISIBLE BY 2 '' @ warn_sign @ ''\<newline>'',
          play_sign @ '' Any mods that have texture files with incorrect dimensions\<newline>'',
          ''  are very likely to cause a *Texture (DDS) Crash*. For further details,\<newline>'',
          ''  read the *How To Read Crash Logs.pdf* included with the CLASSIC exe.\<newline>\<newline>'']
      | tex_frmt \<Rightarrow> Some
          [''\<newline># '' @ quest_sign @ '' TEXTURE FILES HAVE INCORRECT FORMAT, SHOULD BE DDS '' @ quest_sign @ ''\<newline>'',
          play_sign @ '' Any files with an incorrect file format will not work.\<newline>'',
          ''  Mod authors should convert these files to their proper game format.\<newline>'',
          ''  If possible, notify the original mod authors about these problems.\<newline>\<newline>'']
      | snd_frmt \<Rightarrow> Some
          [''\<newline># '' @ quest_sign @ '' SOUND FILES HAVE INCORRECT FORMAT, SHOULD BE XWM OR WAV '' @ quest_sign @ ''\<newline>'',
          play_sign @ '' Any files with an incorrect file format will not work.\<newline>'',
          ''  Mod authors should convert these files to their proper game format.\<newline>'',
          ''  If possible, notify the original mod authors about these problems.\<newline>\<newline>'']
      | xse_file \<Rightarrow> None
      | previs \<Rightarrow> None
      | ba2_frmt \<Rightarrow> None
     )"

definition unpacked_messages :: "string \<Rightarrow> category \<Rightarrow> string list option" where
  "unpacked_messages xse_acronym issue_type =
     (case issue_type of
        cleanup \<Rightarrow> Some
          [''\<newline># '' @ page_sign @ '' DOCUMENTATION FILES MOVED TO '' @ [squote] @ ''CLASSIC Backup'' @ [bslash] @ ''Cleaned Files'' @ [squote] @ '' '' @ page_sign @ ''\<newline>'']
      | animdata \<Rightarrow> Some
          [''\<newline># '' @ quest_sign @ '' FOLDERS CONTAIN CUSTOM ANIMATION FILE DATA '' @ quest_sign @ ''\<newline>'',
          play_sign @ '' Any mods that have their own custom Animation File Data\<newline>'',
          ''  may rarely cause an *Animation Corruption Crash*. For further details,\<newline>'',
          ''  read the *How To Read Crash Logs.pdf* included with the CLASSIC exe.\<newline>\<newline>'']
      | tex_dims \<Rightarrow> None
      | tex_frmt \<Rightarrow> None
      | snd_frmt \<Rightarrow> None
      | xse_file \<Rightarrow> Some
          [''\<newline># '' @ warn_sign @ '' FOLDERS CONTAIN COPIES OF *'' @ xse_acronym @ ''* SCRIPT FILES '' @ warn_sign @ ''\<newline>'',
          play_sign @ '' Any mods with copies of original Script Extender files\<newline>'',
          ''  may cause script related problems or crashes.\<newline>\<newline>'']
      | previs \<Rightarrow> Some
          [''\<newline># '' @ warn_sign @ '' FOLDERS CONTAIN LOOSE PRECOMBINE / PREVIS FILES '' @ warn_sign @ ''\<newline>'',
          play_sign @ '' Any mods that contain custom precombine/previs files\<newline>'',
          ''  should load after the PRP.esp plugin from Previs Repair Pack (PRP).\<newline>'',
          ''  Otherwise, see if there is a PRP patch available for these mods.\<newline>\<newline>'']
      | ba2_frmt \<Rightarrow> None
     )"

definition archived_messages :: "string \<Rightarrow> category \<Rightarrow> string list option" where
  "archived_messages xse_acronym issue_type =
     (case issue_type of
        cleanup \<Rightarrow> None
      | animdata \<Rightarrow> Some
          [''\<newline># '' @ quest_sign @ '' BA2 ARCHIVES CONTAIN CUSTOM ANIMATION FILE DATA '' @ quest_sign @ ''\<newline>'',
          play_sign @ '' Any mods that have their own custom Animation File Data\<newline>'',
          ''  may rarely cause an *Animation Corruption Crash*. For further details,\<newline>'',
          ''  read the *How To Read Crash Logs.pdf* included with the CLASSIC exe.\<newline>\<newline>'']
      | tex_dims \<Rightarrow> None
      | tex_frmt \<Rightarrow> None
      | snd_frmt \<Rightarrow> None
      | xse_file \<Rightarrow> Some
          [''\<newline># '' @ warn_sign @ '' BA2 ARCHIVES CONTAIN COPIES OF *'' @ xse_acronym @ ''* SCRIPT FILES '' @ warn_sign @ ''\<newline>'',
          play_sign @ '' Any mods with copies of original Script Extender files\<newline>'',
          ''  may cause script related problems or crashes.\<newline>\<newline>'']
      | previs \<Rightarrow> Some
          [''\<newline># '' @ warn_sign @ '' BA2 ARCHIVES CONTAIN CUSTOM PRECOMBINE / PREVIS FILES '' @ warn_sign @ ''\<newline>'',
          play_sign @ '' Any mods that contain custom precombine/previs files\<newline>'',
          ''  should load after the PRP.esp plugin from Previs Repair Pack (PRP).\<newline>'',
          ''  Otherwise, see if there is a PRP patch available for these mods.\<newline>\<newline>'']
      | ba2_frmt \<Rightarrow> Some
          [''\<newline># '' @ quest_sign @ '' BA2 ARCHIVES HAVE INCORRECT FORMAT, SHOULD BE BTDX-GNRL OR BTDX-DX10 '' @ quest_sign @ ''\<newline>'',
          play_sign @ '' Any files with an incorrect file format will not work.\<newline>'',
          ''  Mod authors should convert these files to their proper game format.\<newline>'',
          ''  If possible, notify the original mod authors about these problems.\<newline>\<newline>'']
     )"

text \<open>
  \<open>get_issue_messages\<close>: the mode-specific entries are written over the base ones; every
  mode other than \<open>unpacked\<close> is the archived one.
\<close>

definition get_issue_messages :: "string \<Rightarrow> string \<Rightarrow> category \<Rightarrow> string list option" where
  "get_issue_messages xse_acronym mode issue_type =
     (case (if mode = ''unpacked'' then unpacked_messages xse_acronym issue_type
            else archived_messages xse_acronym issue_type) of
        Some msgs \<Rightarrow> Some msgs
      | None \<Rightarrow> base_messages issue_type)"

text \<open>
  The loop that ends both scans: the keys of \<open>issue_lists\<close> in the order the dictionary
  was written, the template of a key followed by its lines, sorted, when the set of the
  key is not empty and the key has a template.
\<close>

definition render_category :: "(category \<Rightarrow> string list option) \<Rightarrow> issue_lists \<Rightarrow> category \<Rightarrow> string list" where
  "render_category issue_messages issue_lists issue_type =
     (case issue_messages issue_type of
        Some msgs \<Rightarrow>
          if issue_lists issue_type \<noteq> {}
          then msgs @ sorted_list_of_set (issue_lists issue_type)
          else []
      | None \<Rightarrow> [])"

definition render_issues ::
    "category list \<Rightarrow> (category \<Rightarrow> string list option) \<Rightarrow> issue_lists \<Rightarrow> string list" where
  "render_issues keys issue_messages issue_lists =
     concat (map (render_category issue_messages issue_lists) keys)"

definition unpacked_keys :: "category list" where
  "unpacked_keys = [cleanup, animdata, tex_dims, tex_frmt, snd_frmt, xse_file, previs]"

definition archived_keys :: "category list" where
  "archived_keys = [ba2_frmt, animdata, tex_dims, tex_frmt, snd_frmt, xse_file, previs]"

section \<open>Moving folders and files to the backup\<close>

text \<open>What a scan did to the file system, in the order it did it.\<close>

datatype fs_op = Mkdir path | Move path path

text \<open>
  \<open>_move_fomod_async\<close>: outside dry-run mode the folder is moved, and a move that raises
  ends the coroutine before the line is added; in dry-run mode nothing is moved and the
  line is added.
\<close>

definition move_fomod_async :: "world \<Rightarrow> path \<Rightarrow> path \<Rightarrow> string list \<Rightarrow> string \<Rightarrow> event list \<times> fs_op list" where
  "move_fomod_async w mod_path backup_path rel dirname =
     (let root = joinpath mod_path rel;
          fomod_folder_path = joinpath root [dirname];
          relative_path = Path [] (rel @ [dirname]);
          new_folder_path = joinpath backup_path (names relative_path);
          line = ''  - '' @ path_str relative_path @ ''\<newline>''
      in if \<not> test_mode w then
           (case move_result w fomod_folder_path new_folder_path of
              IoOk \<Rightarrow> ([(cleanup, line)], [Move fomod_folder_path new_folder_path])
            | IoPermissionError \<Rightarrow> ([], [])
            | IoOSError \<Rightarrow> ([], []))
         else ([(cleanup, line)], []))"

text \<open>\<open>_move_file_async\<close>: the same, after the parent of the new place is created.\<close>

definition move_file_async :: "world \<Rightarrow> path \<Rightarrow> path \<Rightarrow> string list \<Rightarrow> string \<Rightarrow> event list \<times> fs_op list" where
  "move_file_async w mod_path backup_path rel filename =
     (let root = joinpath mod_path rel;
          file_path = joinpath root [filename];
          relative_path = Path [] (rel @ [filename]);
          new_file_path = joinpath backup_path (names relative_path);
          line = ''  - '' @ path_str relative_path @ ''\<newline>''
      in if \<not> test_mode w then
           (case mkdir_result w (parent new_file_path) of
              IoOk \<Rightarrow>
                (case move_result w file_path new_file_path of
                   IoOk \<Rightarrow> ([(cleanup, line)], [Mkdir (parent new_file_path), Move file_path new_file_path])
                 | IoPermissionError \<Rightarrow> ([], [Mkdir (parent new_file_path)])
                 | IoOSError \<Rightarrow> ([], [Mkdir (parent new_file_path)]))
            | IoPermissionError \<Rightarrow> ([], [])
            | IoOSError \<Rightarrow> ([], []))
         else ([(cleanup, line)], []))"

section \<open>The loose-file scan\<close>

definition filter_names :: "string list" where
  "filter_names = [''readme'', ''changes'', ''changelog'', ''change log'']"

text \<open>
  The loop over the sub-directories of \<open>process_directory\<close>: the events added in the
  loop and the \<open>fomod\<close> folders to move, in the order met.
\<close>

fun scan_dirs :: "string \<Rightarrow> bool \<Rightarrow> string list \<Rightarrow> event list \<times> string list" where
  "scan_dirs root_main has_anim_data [] = ([], [])"
| "scan_dirs root_main has_anim_data (dirname # rest) =
     (let dirname_lower = lower dirname in
      if \<not> has_anim_data \<and> dirname_lower = ''animationfiledata'' then
        (let (es, ts) = scan_dirs root_main True rest
         in ((animdata, ''  - '' @ root_main @ ''\<newline>'') # es, ts))
      else if dirname_lower = ''fomod'' then
        (let (es, ts) = scan_dirs root_main has_anim_data rest
         in (es, dirname # ts))
      else scan_dirs root_main has_anim_data rest)"

text \<open>
  The \<open>if\<close>/\<open>elif\<close> chain of the loop over the files, as the branch it takes.
\<close>

datatype file_action = MoveDoc | QueueDds | TexFrmt | SndFrmt | XseFile | Previs | NoAction

definition classify_file ::
    "path \<Rightarrow> string list \<Rightarrow> (string \<times> string) list \<Rightarrow> bool \<Rightarrow> bool \<Rightarrow> string \<Rightarrow> file_action" where
  "classify_file mod_path rel xse_scriptfiles has_xse_files has_previs_files filename =
     (let filename_lower = lower filename;
          root = joinpath mod_path rel;
          file_path = joinpath root [filename];
          file_ext = lower (path_suffix file_path)
      in if endswith filename_lower ''.txt'' \<and> (\<exists>name \<in> set filter_names. contains filename_lower name)
         then MoveDoc
         else if file_ext = ''.dds'' then QueueDds
         else if file_ext \<in> {''.tga'', ''.png''} \<and> ''BodySlide'' \<notin> set (path_parts file_path)
         then TexFrmt
         else if file_ext \<in> {''.mp3'', ''.m4a''} then SndFrmt
         else if \<not> has_xse_files
                 \<and> (\<exists>key \<in> set (map fst xse_scriptfiles). filename_lower = lower key)
                 \<and> \<not> contains (lower (path_str root)) ''workshop framework''
                 \<and> contains (path_str file_path) (''Scripts'' @ [bslash] @ filename)
         then XseFile
         else if \<not> has_previs_files
                 \<and> (endswith filename_lower ''.uvd'' \<or> endswith filename_lower ''_oc.nif'')
         then Previs
         else NoAction)"

text \<open>
  The loop over the files: the events added in the loop, the files to move and the
  textures to check, in the order met. The two flags are the loop's
  \<open>has_xse_files\<close> and \<open>has_previs_files\<close>.
\<close>

fun scan_files ::
    "path \<Rightarrow> string list \<Rightarrow> (string \<times> string) list \<Rightarrow> bool \<Rightarrow> bool \<Rightarrow> string list
       \<Rightarrow> event list \<times> string list \<times> (path \<times> path) list" where
  "scan_files mod_path rel xse_scriptfiles has_xse_files has_previs_files [] = ([], [], [])"
| "scan_files mod_path rel xse_scriptfiles has_xse_files has_previs_files (filename # rest) =
     (let root = joinpath mod_path rel;
          root_main = parent (Path [] rel);
          file_path = joinpath root [filename];
          relative_path = Path [] (rel @ [filename]);
          file_ext = lower (path_suffix file_path)
      in case classify_file mod_path rel xse_scriptfiles has_xse_files has_previs_files filename of
           MoveDoc \<Rightarrow>
             (let (es, ms, ds) = scan_files mod_path rel xse_scriptfiles has_xse_files has_previs_files rest
              in (es, filename # ms, ds))
         | QueueDds \<Rightarrow>
             (let (es, ms, ds) = scan_files mod_path rel xse_scriptfiles has_xse_files has_previs_files rest
              in (es, ms, (file_path, relative_path) # ds))
         | TexFrmt \<Rightarrow>
             (let (es, ms, ds) = scan_files mod_path rel xse_scriptfiles has_xse_files has_previs_files rest
              in ((tex_frmt, ''  - '' @ upper (drop 1 file_ext) @ '' : '' @ path_str relative_path @ ''\<newline>'') # es,
                  ms, ds))
         | SndFrmt \<Rightarrow>
             (let (es, ms, ds) = scan_files mod_path rel xse_scriptfiles has_xse_files has_previs_files rest
              in ((snd_frmt, ''  - '' @ upper (drop 1 file_ext) @ '' : '' @ path_str relative_path @ ''\<newline>'') # es,
                  ms, ds))
         | XseFile \<Rightarrow>
             (let (es, ms, ds) = scan_files mod_path rel xse_scriptfiles True has_previs_files rest
              in ((xse_file, ''  - '' @ path_str root_main @ ''\<newline>'') # es, ms, ds))
         | Previs \<Rightarrow>
             (let (es, ms, ds) = scan_files mod_path rel xse_scriptfiles has_xse_files True rest
              in ((previs, ''  - '' @ path_str root_main @ ''\<newline>'') # es, ms, ds))
         | NoAction \<Rightarrow> scan_files mod_path rel xse_scriptfiles has_xse_files has_previs_files rest)"

text \<open>
  \<open>process_directory\<close>: the sub-directories, the gathered moves of the \<open>fomod\<close> folders,
  the files, then the gathered moves of the documentation files and the batch of texture
  checks. It gives the events it adds to the shared sets and what it did to the file
  system.
\<close>

definition process_directory ::
    "world \<Rightarrow> path \<Rightarrow> path \<Rightarrow> (string \<times> string) list \<Rightarrow> dir_data \<Rightarrow> event list \<times> fs_op list" where
  "process_directory w mod_path backup_path xse_scriptfiles dd =
     (case dd of (rel, dirs, files) \<Rightarrow>
        (let root_main = parent (Path [] rel);
             (dir_events, fomods) = scan_dirs (path_str root_main) False dirs;
             dir_tasks = map (move_fomod_async w mod_path backup_path rel) fomods;
             (file_events, docs, dds_files) = scan_files mod_path rel xse_scriptfiles False False files;
             file_tasks = map (move_file_async w mod_path backup_path rel) docs;
             dds_events = (if dds_files \<noteq> [] then check_dds_batch (file_bytes w) dds_files else [])
         in (dir_events @ concat (map fst dir_tasks) @ file_events @ concat (map fst file_tasks) @ dds_events,
             concat (map snd dir_tasks) @ concat (map snd file_tasks))))"

text \<open>
  \<open>process_directory\<close> above is the coroutine run by itself, every operation finding the
  files as the world has them. In the scan the coroutines of a wave run concurrently, and
  a move made by one of them is seen by the others: the folder \<open>fomod\<close> of a mod is moved
  by the task of the mod's directory, while the files inside it are moved and read by the
  task of the folder itself, which comes earlier in the walk. What a task does is therefore
  split in two: the lines it adds by itself while it loops over the names, which depend on
  the names only, and the file operations it hands to the event loop, in the order it
  creates them.
\<close>

definition directory_plan ::
    "path \<Rightarrow> (string \<times> string) list \<Rightarrow> dir_data \<Rightarrow> event list \<times> fs_action list" where
  "directory_plan mod_path xse_scriptfiles dd =
     (case dd of (rel, dirs, files) \<Rightarrow>
        (let root_main = parent (Path [] rel);
             (dir_events, fomods) = scan_dirs (path_str root_main) False dirs;
             (file_events, docs, dds_files) = scan_files mod_path rel xse_scriptfiles False False files
         in (dir_events @ file_events,
             map (MoveFomod rel) fomods @ map (MoveFile rel) docs
               @ map (\<lambda>(file_path, relative_path). CheckDds file_path relative_path) dds_files)))"

text \<open>
  The sources of the moves made so far, and what they leave of the world: a path that is a
  moved source, or lies below one, is gone, so that reading it and moving it raise
  \<open>OSError\<close>. The moves go to the backup folder, whose files the scan never reads.
\<close>

fun sources :: "fs_op list \<Rightarrow> path list" where
  "sources [] = []"
| "sources (Mkdir p # ops) = sources ops"
| "sources (Move src dst # ops) = src # sources ops"

definition gone :: "path list \<Rightarrow> path \<Rightarrow> bool" where
  "gone moved p = (\<exists>src \<in> set moved. anchor src = anchor p \<and> prefix (names src) (names p))"

definition after_moves :: "path list \<Rightarrow> world \<Rightarrow> world" where
  "after_moves moved w =
     w \<lparr> file_bytes := (\<lambda>p. if gone moved p then None else file_bytes w p),
         move_result := (\<lambda>src dst. if gone moved src then IoOSError else move_result w src dst) \<rparr>"

text \<open>One file operation, in the world as it is when the operation takes place.\<close>

definition run_action :: "world \<Rightarrow> path \<Rightarrow> path \<Rightarrow> fs_action \<Rightarrow> event list \<times> fs_op list" where
  "run_action w mod_path backup_path a =
     (case a of
        MoveFomod rel dirname \<Rightarrow> move_fomod_async w mod_path backup_path rel dirname
      | MoveFile rel filename \<Rightarrow> move_file_async w mod_path backup_path rel filename
      | CheckDds file_path relative_path \<Rightarrow>
          (swallow (check_single_dds (file_bytes w) file_path relative_path), []))"

text \<open>
  File operations one after the other, each after the moves made before it: by earlier
  waves (\<open>moved\<close>) and by the operations before it in the list.
\<close>

fun run_actions ::
    "world \<Rightarrow> path \<Rightarrow> path \<Rightarrow> path list \<Rightarrow> fs_action list \<Rightarrow> event list \<times> fs_op list" where
  "run_actions w mod_path backup_path moved [] = ([], [])"
| "run_actions w mod_path backup_path moved (a # rest) =
     (let (events, ops) = run_action (after_moves moved w) mod_path backup_path a;
          (events', ops') = run_actions w mod_path backup_path (moved @ sources ops) rest
      in (events @ events', ops @ ops'))"

text \<open>
  One wave, \<open>asyncio.gather\<close> over the tasks of up to \<open>batch_size\<close> directories: the lines
  the tasks add by themselves, and their file operations in the order of their turns.
\<close>

definition run_batch ::
    "world \<Rightarrow> path \<Rightarrow> path \<Rightarrow> (string \<times> string) list \<Rightarrow> path list \<Rightarrow> dir_data list
       \<Rightarrow> event list \<times> fs_op list" where
  "run_batch w mod_path backup_path xse_scriptfiles moved batch =
     (let plans = map (directory_plan mod_path xse_scriptfiles) batch;
          (events, ops) = run_actions w mod_path backup_path moved
                            (sort_key (turn w) (concat (map snd plans)))
      in (concat (map fst plans) @ events, ops))"

text \<open>The directories are processed in waves of \<open>batch_size\<close>, one wave after the other.\<close>

function batches :: "nat \<Rightarrow> 'a list \<Rightarrow> 'a list list" where
  "batches n xs = (if n = 0 \<or> xs = [] then [] else take n xs # batches n (drop n xs))"
  by pat_completeness auto
termination
  by (relation "measure (\<lambda>(n, xs). length xs)") auto

declare batches.simps [simp del]

fun run_batches ::
    "world \<Rightarrow> path \<Rightarrow> path \<Rightarrow> (string \<times> string) list \<Rightarrow> path list \<Rightarrow> dir_data list list
       \<Rightarrow> event list \<times> fs_op list" where
  "run_batches w mod_path backup_path xse_scriptfiles moved [] = ([], [])"
| "run_batches w mod_path backup_path xse_scriptfiles moved (batch # rest) =
     (let (events, ops) = run_batch w mod_path backup_path xse_scriptfiles moved batch;
          (events', ops') = run_batches w mod_path backup_path xse_scriptfiles (moved @ sources ops) rest
      in (events @ events', ops @ ops'))"

definition unpacked_banner :: "string list" where
  "unpacked_banner =
     [''=================== MOD FILES SCAN ====================\<newline>'',
      ''========= RESULTS FROM UNPACKED / LOOSE FILES =========\<newline>'']"

text \<open>
  The report of the loose-file scan from the events that reached the shared sets, in
  whatever order they did.
\<close>

definition unpacked_report :: "string \<Rightarrow> event list \<Rightarrow> string" where
  "unpacked_report xse_acronym events =
     concat (unpacked_banner
             @ render_issues unpacked_keys (get_issue_messages xse_acronym ''unpacked'')
                 (add_all events empty_issues))"

definition backup_path_of :: "world \<Rightarrow> path" where
  "backup_path_of w = joinpath (local_dir w) [''CLASSIC Backup'', ''Cleaned Files'']"

text \<open>
  \<open>scan_mods_unpacked\<close>: the report, or the exception that leaves the function when the
  backup folder cannot be created, and what was done to the file system.
\<close>

definition unpacked_run ::
    "world \<Rightarrow> path \<Rightarrow> (string \<times> string) list \<Rightarrow> dir_data list \<Rightarrow> event list \<times> fs_op list" where
  "unpacked_run w mod_path xse_scriptfiles all_dirs_data =
     run_batches w mod_path (backup_path_of w) xse_scriptfiles [] (batches 50 all_dirs_data)"

definition scan_mods_unpacked :: "world \<Rightarrow> (py_exception + string) \<times> fs_op list" where
  "scan_mods_unpacked w =
     (case get_scan_settings w of (xse_acronym, xse_scriptfiles, mod_path_opt) \<Rightarrow>
        (let backup_path = backup_path_of w;
             made = (if \<not> test_mode w then [Mkdir backup_path] else [])
         in if \<not> test_mode w \<and> mkdir_result w backup_path \<noteq> IoOk then (Inl OSError, [])
            else
              (case mod_path_opt of
                 None \<Rightarrow> (Inr (yaml_warning w ''Mods_Warn.Mods_Path_Missing''), made)
               | Some mod_path \<Rightarrow>
                   (case walk w mod_path of
                      None \<Rightarrow> (Inr ''Error: Could not access mod files'', made)
                    | Some all_dirs_data \<Rightarrow>
                        (let (events, ops) = unpacked_run w mod_path xse_scriptfiles all_dirs_data
                         in (Inr (unpacked_report xse_acronym events), made @ ops))))))"

section \<open>Archive headers\<close>

definition btdx :: "byte list" where
  "btdx = [0x42, 0x54, 0x44, 0x58]"

definition dx10 :: "byte list" where
  "dx10 = [0x44, 0x58, 0x31, 0x30]"

definition gnrl :: "byte list" where
  "gnrl = [0x47, 0x4E, 0x52, 0x4C]"

text \<open>
  \<open>str(header)\<close> of a \<open>bytes\<close> value is its \<open>repr\<close>: the letter b, a quote (the double
  one when the bytes hold a single quote and no double one), the bytes with the quote
  and the backslash escaped, tab, line feed and carriage return by their letters, every
  other byte outside the printable ASCII range as two hexadecimal digits.
\<close>

definition hex_digit :: "nat \<Rightarrow> char" where
  "hex_digit n = ''0123456789abcdef'' ! n"

definition byte_char :: "byte \<Rightarrow> char" where
  "byte_char b = char_of (unat b)"

definition repr_byte :: "char \<Rightarrow> byte \<Rightarrow> string" where
  "repr_byte quote b =
     (let c = byte_char b; n = unat b in
      if c = quote \<or> c = bslash then [bslash, c]
      else if n = 9 then [bslash, CHR ''t'']
      else if n = 10 then [bslash, CHR ''n'']
      else if n = 13 then [bslash, CHR ''r'']
      else if n < 32 \<or> 127 \<le> n then [bslash, CHR ''x'', hex_digit (n div 16), hex_digit (n mod 16)]
      else [c])"

definition bytes_repr :: "byte list \<Rightarrow> string" where
  "bytes_repr bs =
     (let quote = (if 0x27 \<in> set bs \<and> 0x22 \<notin> set bs then dquote else squote)
      in ''b'' @ [quote] @ concat (map (repr_byte quote) bs) @ [quote])"

text \<open>
  The exceptions caught around the call of the archive tool: \<open>TimeoutError\<close>, and
  \<open>OSError\<close> (with its subclasses), \<open>ValueError\<close>, \<open>SubprocessError\<close>.
\<close>

definition caught_by_ba2 :: "py_exception \<Rightarrow> bool" where
  "caught_by_ba2 e = (e \<in> {TimeoutError, OSError, PermissionError, ValueError, SubprocessError})"

definition archived_banner :: "string list" where
  "archived_banner = [''\<newline>========== RESULTS FROM ARCHIVED / BA2 FILES ==========\<newline>'']"

definition bsarch_path_of :: "world \<Rightarrow> path" where
  "bsarch_path_of w = joinpath (local_dir w) [''CLASSIC Data'', ''BSArch.exe'']"

text \<open>
  \<open>asyncio.create_subprocess_exec\<close> followed by \<open>communicate\<close> under \<open>wait_for\<close>. The event
  loop takes the keyword \<open>text\<close> and refuses a true value with \<open>ValueError\<close> before it starts
  any process (\<open>BaseEventLoop.subprocess_exec\<close>: \<open>text must be False\<close>); with a false value
  the tool runs and the world says how the run ends.
\<close>

definition create_subprocess_exec :: "world \<Rightarrow> path \<Rightarrow> path \<Rightarrow> string \<Rightarrow> bool \<Rightarrow> proc_result" where
  "create_subprocess_exec w program file_path subcommand text =
     (if text then ProcRaised ValueError else run_bsarch w program file_path subcommand)"

section \<open>The archive scan of ScanGameCore\<close>

text \<open>The method \<open>ScanGameCore.scan_mods_archived\<close> and the coroutine nested in it.\<close>

text \<open>
  The loop over the blocks of a texture archive's dump. A block with fewer lines than the
  loop reads raises \<open>IndexError\<close>, which nothing catches: it leaves the coroutine and the
  archive's issues are lost. A dimension line that does not split into five words raises
  \<open>ValueError\<close>, which is caught: the loop ends and the issues found so far are returned.
\<close>

fun dump_blocks :: "string \<Rightarrow> string list \<Rightarrow> issue_lists \<Rightarrow> py_exception + issue_lists" where
  "dump_blocks filename [] local_issues = Inr local_issues"
| "dump_blocks filename (file_block # rest) local_issues =
     (if file_block = [] then dump_blocks filename rest local_issues
      else
        (let block_split = split_sep_max 3 ''\<newline>'' file_block in
         if length block_split < 2 then Inl IndexError
         else if \<not> contains (block_split ! 1) ''Ext: dds'' then
           dump_blocks filename rest
             (add_issue (tex_frmt,
                ''  - '' @ upper (rsplit1_last CHR ''.'' (block_split ! 0)) @ '' : '' @ filename
                  @ '' > '' @ block_split ! 0 @ ''\<newline>'') local_issues)
         else if length block_split < 3 then Inl IndexError
         else
           (case split_ws_max 4 (block_split ! 2) of
              [_, width, _, height, _] \<Rightarrow>
                dump_blocks filename rest
                  (if (isdecimal width \<and> int_of_decimal width mod 2 \<noteq> 0)
                      \<or> (isdecimal height \<and> int_of_decimal height mod 2 \<noteq> 0)
                   then add_issue (tex_dims,
                          ''  - '' @ width @ ''x'' @ height @ '' : '' @ filename @ '' > '' @ block_split ! 0)
                          local_issues
                   else local_issues)
            | _ \<Rightarrow> Inr local_issues)))"

text \<open>
  The loop over the lines of a general archive's listing, with the three flags
  \<open>has_anim_data\<close>, \<open>has_xse_files\<close> and \<open>has_previs_files\<close>.
\<close>

fun list_lines ::
    "(string \<times> string) list \<Rightarrow> path \<Rightarrow> string \<Rightarrow> bool \<Rightarrow> bool \<Rightarrow> bool \<Rightarrow> string list
       \<Rightarrow> issue_lists \<Rightarrow> issue_lists" where
  "list_lines xse_scriptfiles file_path filename has_anim_data has_xse_files has_previs_files []
       local_issues = local_issues"
| "list_lines xse_scriptfiles file_path filename has_anim_data has_xse_files has_previs_files
       (file # rest) local_issues =
     (if endswith file ''.mp3'' \<or> endswith file ''.m4a'' then
        list_lines xse_scriptfiles file_path filename has_anim_data has_xse_files has_previs_files rest
          (add_issue (snd_frmt,
             ''  - '' @ upper (drop (length file - 3) file) @ '' : '' @ filename @ '' > '' @ file
               @ ''\<newline>'') local_issues)
      else if \<not> has_anim_data \<and> contains file ''animationfiledata'' then
        list_lines xse_scriptfiles file_path filename True has_xse_files has_previs_files rest
          (add_issue (animdata, ''  - '' @ filename @ ''\<newline>'') local_issues)
      else if \<not> has_xse_files
              \<and> (\<exists>key \<in> set (map fst xse_scriptfiles). contains file (''scripts'' @ [bslash] @ lower key))
              \<and> \<not> contains (lower (path_str (parent file_path))) ''workshop framework'' then
        list_lines xse_scriptfiles file_path filename has_anim_data True has_previs_files rest
          (add_issue (xse_file, ''  - '' @ filename @ ''\<newline>'') local_issues)
      else if \<not> has_previs_files \<and> (endswith file ''.uvd'' \<or> endswith file ''_oc.nif'') then
        list_lines xse_scriptfiles file_path filename has_anim_data has_xse_files True rest
          (add_issue (previs, ''  - '' @ filename @ ''\<newline>'') local_issues)
      else
        list_lines xse_scriptfiles file_path filename has_anim_data has_xse_files has_previs_files rest
          local_issues)"

text \<open>
  \<open>process_single_ba2\<close>: the issues of one archive, or the exception that leaves the
  coroutine, and the calls of \<open>create_subprocess_exec\<close> it made (archive and sub-command):
  both calls pass \<open>text=True\<close>.
\<close>

definition process_single_ba2 ::
    "world \<Rightarrow> path \<Rightarrow> (string \<times> string) list \<Rightarrow> path \<times> string
       \<Rightarrow> (py_exception + issue_lists) \<times> (path \<times> string) list" where
  "process_single_ba2 w bsarch_path xse_scriptfiles ba2 =
     (case ba2 of (file_path, filename) \<Rightarrow>
        (case file_bytes w file_path of
           None \<Rightarrow> (Inr empty_issues, [])
         | Some content \<Rightarrow>
             (let header = take 12 content in
              if take 4 header \<noteq> btdx \<or> drop 8 header \<notin> {dx10, gnrl} then
                (Inr (add_issue (ba2_frmt, ''  - '' @ filename @ '' : '' @ bytes_repr header @ ''\<newline>'')
                        empty_issues), [])
              else if drop 8 header = dx10 then
                (case create_subprocess_exec w bsarch_path file_path ''-dump'' True of
                   ProcTimeout \<Rightarrow> (Inr empty_issues, [(file_path, ''-dump'')])
                 | ProcRaised e \<Rightarrow>
                     (if caught_by_ba2 e then Inr empty_issues else Inl e, [(file_path, ''-dump'')])
                 | ProcDone returncode stdout stderr \<Rightarrow>
                     (if returncode \<noteq> 0 then Inr empty_issues
                      else
                        (let output_split = split_sep ''\<newline>\<newline>'' stdout in
                         if startswith (last output_split) ''Error:'' then Inr empty_issues
                         else dump_blocks filename (drop 4 output_split) empty_issues),
                      [(file_path, ''-dump'')]))
              else
                (case create_subprocess_exec w bsarch_path file_path ''-list'' True of
                   ProcTimeout \<Rightarrow> (Inr empty_issues, [(file_path, ''-list'')])
                 | ProcRaised e \<Rightarrow>
                     (if caught_by_ba2 e then Inr empty_issues else Inl e, [(file_path, ''-list'')])
                 | ProcDone returncode stdout stderr \<Rightarrow>
                     (if returncode \<noteq> 0 then Inr empty_issues
                      else
                        (let output_split = split_sep ''\<newline>'' (lower stdout) in
                         Inr (list_lines xse_scriptfiles file_path filename False False False
                                (drop 15 output_split) empty_issues)),
                      [(file_path, ''-list'')])))))"

text \<open>
  The archives found by one walk of the mod folder, and the merge of the gathered
  results: a result that is an exception is skipped.
\<close>

definition collect_ba2 :: "path \<Rightarrow> dir_data list \<Rightarrow> (path \<times> string) list" where
  "collect_ba2 mod_path all_dirs_data =
     concat (map (\<lambda>(rel, dirs, files).
               map (\<lambda>filename. (joinpath (joinpath mod_path rel) [filename], filename))
                   (filter (\<lambda>filename. endswith (lower filename) ''.ba2''
                                        \<and> lower filename \<noteq> ''prp - main.ba2'') files))
             all_dirs_data)"

fun merge_results :: "(py_exception + issue_lists) list \<Rightarrow> issue_lists \<Rightarrow> issue_lists" where
  "merge_results [] issue_lists = issue_lists"
| "merge_results (Inl e # rest) issue_lists = merge_results rest issue_lists"
| "merge_results (Inr items # rest) issue_lists =
     merge_results rest (\<lambda>issue_type. issue_lists issue_type \<union> items issue_type)"

definition scan_mods_archived :: "world \<Rightarrow> string" where
  "scan_mods_archived w =
     (case get_scan_settings w of (xse_acronym, xse_scriptfiles, mod_path_opt) \<Rightarrow>
        (let bsarch_path = bsarch_path_of w in
         case mod_path_opt of
           None \<Rightarrow> yaml_warning w ''Mods_Warn.Mods_Path_Missing''
         | Some mod_path \<Rightarrow>
             if \<not> path_exists w mod_path then yaml_warning w ''Mods_Warn.Mods_Path_Invalid''
             else if \<not> path_exists w bsarch_path then yaml_warning w ''Mods_Warn.Mods_BSArch_Missing''
             else
               (case walk w mod_path of
                  None \<Rightarrow> ''Error: Could not scan for BA2 files''
                | Some all_dirs_data \<Rightarrow>
                    (let ba2_files = collect_ba2 mod_path all_dirs_data;
                         results = map (\<lambda>ba2. fst (process_single_ba2 w bsarch_path xse_scriptfiles ba2)) ba2_files;
                         issue_lists = merge_results results empty_issues;
                         issue_messages = get_issue_messages xse_acronym ''archived''
                     in concat (archived_banner @ render_issues archived_keys issue_messages issue_lists)))))"

section \<open>The archive scan of AsyncScanGame\<close>

text \<open>
  The free function \<open>scan_mods_archived_async\<close> and the coroutine nested in it. It imports
  \<open>get_scan_settings\<close> and \<open>get_issue_messages\<close> from the module \<open>CLASSIC_ScanGame\<close>.
\<close>









section \<open>The log-error scan\<close>

text \<open>
  Modelled from the spec: \<open>normalize_list\<close> of \<open>ClassicLib.Util\<close> is not among the
  sources. The spec has every line tested case-insensitively against the pattern lists,
  and the scan lowers the line only: the patterns come out of \<open>normalize_list\<close> in lower
  case.
\<close>

definition normalize_list :: "string list \<Rightarrow> string list" where
  "normalize_list xs = map lower xs"

definition yaml_list :: "world \<Rightarrow> string \<Rightarrow> string list" where
  "yaml_list w key = (case main_yaml_list w key of Some xs \<Rightarrow> xs | None \<Rightarrow> [])"

definition format_error_report :: "path \<Rightarrow> string list \<Rightarrow> string list" where
  "format_error_report file_path errors =
     [''[!] CAUTION : THE FOLLOWING LOG FILE REPORTS ONE OR MORE ERRORS!\<newline>'',
      ''[ Errors do not necessarily mean that the mod is not working. ]\<newline>'',
      ''\<newline>LOG PATH > '' @ path_str file_path @ ''\<newline>'']
     @ errors
     @ [''\<newline>* TOTAL NUMBER OF DETECTED LOG ERRORS * : '' @ show_nat (length errors) @ ''\<newline>'']"

text \<open>The test of one line, and the lines of a file that pass it, each with its marker.\<close>

definition line_matches :: "string list \<Rightarrow> string list \<Rightarrow> string \<Rightarrow> bool" where
  "line_matches catch_errors ignore_errors line =
     ((\<exists>error \<in> set catch_errors. contains (lower line) error)
      \<and> (\<forall>ignore \<in> set ignore_errors. \<not> contains (lower line) ignore))"

definition detect_errors :: "string list \<Rightarrow> string list \<Rightarrow> string list \<Rightarrow> string list" where
  "detect_errors catch_errors ignore_errors log_lines =
     map (\<lambda>line. ''ERROR > '' @ line) (filter (line_matches catch_errors ignore_errors) log_lines)"

definition process_single_log :: "world \<Rightarrow> string list \<Rightarrow> string list \<Rightarrow> path \<Rightarrow> string list" where
  "process_single_log w catch_errors ignore_errors log_file_path =
     (case read_lines w log_file_path of
        None \<Rightarrow>
          [cross_sign @ '' ERROR : Unable to scan this log file :\<newline>  '' @ path_str log_file_path]
      | Some log_lines \<Rightarrow>
          (let detected_errors = detect_errors catch_errors ignore_errors log_lines in
           if detected_errors \<noteq> [] then format_error_report log_file_path detected_errors else []))"



section \<open>Reference readings used in the statements\<close>

text \<open>The unsigned little-endian number in the four bytes from an offset on.\<close>

definition uint32_le_at :: "nat \<Rightarrow> byte list \<Rightarrow> nat" where
  "uint32_le_at off bs =
     unat (bs ! off) + 256 * unat (bs ! (off + 1)) + 65536 * unat (bs ! (off + 2))
       + 16777216 * unat (bs ! (off + 3))"

definition dds_line :: "path \<Rightarrow> nat \<Rightarrow> nat \<Rightarrow> string" where
  "dds_line relative_path w h =
     ''  - '' @ path_str relative_path @ '' ('' @ show_nat w @ ''x'' @ show_nat h @ '')''"

definition dds_header_of :: "byte \<Rightarrow> byte \<Rightarrow> byte list" where
  "dds_header_of w h = dds_magic @ [124, 0, 0, 0, 7, 16, 0, 0] @ [w, 0, 0, 0] @ [h, 0, 0, 0]"

text \<open>The registry that holds one line under one key and nothing else.\<close>

definition only_issue :: "category \<Rightarrow> string \<Rightarrow> issue_lists" where
  "only_issue c line = (\<lambda>issue_type. if issue_type = c then {line} else {})"

section \<open>A sample installation\<close>

text \<open>
  A small mod folder used to run the scans on concrete inputs: one mod with a \<open>fomod\<close>
  folder, a read-me, a script-extender script below \<open>Scripts\<close>, three textures and four
  archives: one of each kind of header, and a second texture archive. The field
  \<open>run_bsarch\<close> holds what the archive tool prints for them when it is run: a listing, a
  dump, and a dump that is cut short.
\<close>

definition mods_root :: path where
  "mods_root = Path drive_c [''mods'']"

definition gnrl_archive :: "byte list" where
  "gnrl_archive = btdx @ [1, 0, 0, 0] @ gnrl @ [7, 0, 0, 0, 0, 0, 0, 0]"

definition dx10_archive :: "byte list" where
  "dx10_archive = btdx @ [1, 0, 0, 0] @ dx10 @ [7, 0, 0, 0, 0, 0, 0, 0]"

definition bad_archive :: "byte list" where
  "bad_archive = btdx @ [1, 0, 0, 0] @ [0x58, 0x58, 0x58, 0x58]"

text \<open>The four heading blocks of a dump, which the scan skips.\<close>

definition dump_preamble :: string where
  "dump_preamble = ''h1\<newline>\<newline>h2\<newline>\<newline>h3\<newline>\<newline>h4\<newline>\<newline>''"

definition sample_files :: "(path \<times> byte list) list" where
  "sample_files =
     [(joinpath mods_root [''ModA'', ''Main.ba2''], gnrl_archive),
      (joinpath mods_root [''ModA'', ''Tex.ba2''], dx10_archive),
      (joinpath mods_root [''ModA'', ''Bad.ba2''], bad_archive),
      (joinpath mods_root [''ModA'', ''Broken.ba2''], dx10_archive),
      (joinpath mods_root [''ModA'', ''tex'', ''odd.dds''], dds_header_of 101 200),
      (joinpath mods_root [''ModA'', ''tex'', ''even.dds''], dds_header_of 100 200)]"

definition sample_tree :: "dir_data list" where
  "sample_tree =
     [([''ModA'', ''fomod''], [], [''info.xml'']),
      ([''ModA'', ''Scripts''], [], [''Actor.pex'']),
      ([''ModA'', ''tex''], [], [''odd.dds'', ''even.dds'', ''skin.png'']),
      ([''ModA''], [''fomod'', ''Scripts'', ''tex''], [''readme.txt'', ''Main.ba2'', ''Tex.ba2'', ''Bad.ba2'', ''Broken.ba2'']),
      ([], [''ModA''], [])]"

definition sample_listing :: string where
  "sample_listing =
     concat (replicate 15 ''preamble\<newline>'')
       @ ''Sound\<newline>Scripts'' @ [bslash] @ ''Actor.pex\<newline>Meshes'' @ [bslash]
       @ ''a.UVD\<newline>Meshes'' @ [bslash] @ ''b_oc.nif''"

definition sample_dump :: string where
  "sample_dump =
     dump_preamble
       @ ''textures/a.dds\<newline>  DirHash: 1  Ext: dds\<newline>  Width: 511 Height: 512 CubeMap: No\<newline>  Chunks''
       @ ''\<newline>\<newline>''
       @ ''textures/b.png\<newline>  DirHash: 2  Ext: png\<newline>  Width: 512 Height: 512 CubeMap: No\<newline>  Chunks''"

text \<open>
  The turns of an event loop whose thread pool is idle: a move is handed to the pool in
  the turn in which its coroutine starts, a texture is opened one turn later, since its
  coroutine is started by the coroutine of the batch of textures.
\<close>

definition submission_turn :: "fs_action \<Rightarrow> nat" where
  "submission_turn a = (case a of CheckDds file_path relative_path \<Rightarrow> 1 | _ \<Rightarrow> 0)"

definition sample_world :: world where
  "sample_world =
     \<lparr> xse_acronym_setting = Some ''F4SE'',
       xse_scriptfiles_setting = Some [(''Actor.pex'', ''0'')],
       mods_folder_path = Some mods_root,
       test_mode = True,
       local_dir = Path drive_c [''classic''],
       main_yaml_str = (\<lambda>key. None),
       main_yaml_list = map_of [(''catch_log_errors'', [''Error'', ''failed'']),
                                (''exclude_log_errors'', [''Keybind''])],
       walk = (\<lambda>p. if p = mods_root then Some sample_tree else None),
       path_exists = (\<lambda>p. True),
       file_bytes = map_of sample_files,
       mkdir_result = (\<lambda>p. IoOk),
       move_result = (\<lambda>src dst. IoOk),
       run_bsarch = (\<lambda>exe file sub.
                       if file = joinpath mods_root [''ModA'', ''Broken.ba2'']
                       then ProcDone 0 (dump_preamble @ ''truncated'') []
                       else if sub = ''-list'' then ProcDone 0 sample_listing []
                       else ProcDone 0 sample_dump []),
       turn = submission_turn,
       glob_logs = (\<lambda>folder. [joinpath folder [''f4se.log'']]),
       read_lines = (\<lambda>p. Some [''plugin loaded\<newline>'', ''ERROR: load failed\<newline>'',
                                   ''Keybind error ignored\<newline>'']) \<rparr>"





definition main_archive :: "path \<times> string" where
  "main_archive = (joinpath mods_root [''ModA'', ''Main.ba2''], ''Main.ba2'')"

section \<open>Readings of the loose-file rules used in the statements\<close>

text \<open>
  When a file counts as a copy of a script-extender script: no earlier branch of the chain
  takes it (a documentation file to move, a texture to check, a texture or sound of the
  wrong format), its name is, up to case, one of the configured names, the path of its
  directory does not hold \<open>workshop framework\<close>, and the text of its own path holds
  \<open>Scripts\<close>, a backslash and its name.
\<close>

definition xse_collision :: "path \<Rightarrow> string list \<Rightarrow> (string \<times> string) list \<Rightarrow> string \<Rightarrow> bool" where
  "xse_collision mod_path rel xse_scriptfiles filename =
     (let file_path = joinpath (joinpath mod_path rel) [filename];
          ext = lower (path_suffix file_path);
          name = lower filename
      in \<not> (endswith name ''.txt'' \<and> (\<exists>n \<in> set filter_names. contains name n))
         \<and> ext \<notin> {''.dds'', ''.mp3'', ''.m4a''}
         \<and> \<not> (ext \<in> {''.tga'', ''.png''} \<and> ''BodySlide'' \<notin> set (path_parts file_path))
         \<and> (\<exists>key \<in> set (map fst xse_scriptfiles). name = lower key)
         \<and> \<not> contains (lower (path_str (joinpath mod_path rel))) ''workshop framework''
         \<and> contains (path_str file_path) (''Scripts'' @ [bslash] @ filename))"

text \<open>The events of one key among a list of events, and the line of a directory.\<close>

definition events_of :: "category \<Rightarrow> event list \<Rightarrow> event list" where
  "events_of c es = filter (\<lambda>e. fst e = c) es"

definition root_main_line :: "string list \<Rightarrow> string" where
  "root_main_line rel = ''  - '' @ path_str (parent (Path [] rel)) @ ''\<newline>''"

text \<open>
  What the merge of the archive scan takes from a gathered result: the issues returned,
  nothing when the coroutine raised.
\<close>

definition issues_of :: "py_exception + issue_lists \<Rightarrow> issue_lists" where
  "issues_of r = (case r of Inl e \<Rightarrow> empty_issues | Inr items \<Rightarrow> items)"

definition single_detection :: "category \<Rightarrow> bool" where
  "single_detection c = (c \<in> {animdata, xse_file, previs})"

text \<open>The script-extender scripts configured in the sample installation.\<close>

definition sample_scripts :: "(string \<times> string) list" where
  "sample_scripts = [(''Actor.pex'', ''0'')]"

section \<open>Readings of the log rules used in the statements\<close>

text \<open>
  A line holds a pattern case-insensitively; a line is included when it holds one of the
  configured catch patterns and none of the configured ignore patterns.
\<close>

definition contains_ci :: "string \<Rightarrow> string \<Rightarrow> bool" where
  "contains_ci s p = contains (lower s) (lower p)"

definition included_line :: "world \<Rightarrow> string \<Rightarrow> bool" where
  "included_line w line =
     ((\<exists>p \<in> set (yaml_list w ''catch_log_errors''). contains_ci line p)
      \<and> (\<forall>q \<in> set (yaml_list w ''exclude_log_errors''). \<not> contains_ci line q))"

definition sample_log :: path where
  "sample_log = Path drive_c [''logs'', ''f4se.log'']"

section \<open>Readings of the dry-run switch used in the statements\<close>

text \<open>A documentation file, which the loose-file scan moves to the backup.\<close>

definition is_doc :: "string \<Rightarrow> bool" where
  "is_doc filename = (endswith (lower filename) ''.txt''
                      \<and> (\<exists>name \<in> set filter_names. contains (lower filename) name))"

text \<open>
  The same world outside dry-run mode, where creating a folder always succeeds, and so
  does moving a folder or a file that is still in its place.
\<close>

definition moves_enabled :: "world \<Rightarrow> world" where
  "moves_enabled w =
     w \<lparr> test_mode := False, mkdir_result := (\<lambda>p. IoOk), move_result := (\<lambda>src dst. IoOk) \<rparr>"

text \<open>
  A mod whose \<open>fomod\<close> folder holds a texture of width 101 and height 200: the walk gives
  the folder before the mod's directory, and both tasks are in the one wave.
\<close>

definition fomod_texture :: path where
  "fomod_texture = joinpath mods_root [''ModA'', ''fomod'', ''odd.dds'']"

definition fomod_tree :: "dir_data list" where
  "fomod_tree =
     [([''ModA'', ''fomod''], [], [''odd.dds'']),
      ([''ModA''], [''fomod''], []),
      ([], [''ModA''], [])]"

definition fomod_world :: world where
  "fomod_world =
     sample_world \<lparr> walk := (\<lambda>p. if p = mods_root then Some fomod_tree else None),
                    file_bytes := map_of [(fomod_texture, dds_header_of 101 200)] \<rparr>"

definition fomod_line :: string where
  "fomod_line = ''  - ModA'' @ [bslash] @ ''fomod\<newline>''"

definition fomod_texture_line :: string where
  "fomod_texture_line = ''  - ModA'' @ [bslash] @ ''fomod'' @ [bslash] @ ''odd.dds (101x200)''"

text \<open>The report of a scan that returned one.\<close>

definition report_of :: "py_exception + string \<Rightarrow> string" where
  "report_of r = (case r of Inl e \<Rightarrow> [] | Inr text \<Rightarrow> text)"

section \<open>Readings of the traversal used in the statements\<close>

text \<open>
  The same world with a mod folder that is there and cannot be opened: the walk yields
  nothing.
\<close>

definition unreadable_root :: "world \<Rightarrow> world" where
  "unreadable_root w = w \<lparr> walk := (\<lambda>p. Some []), path_exists := (\<lambda>p. True) \<rparr>"

section \<open>Readings of the report used in the statements\<close>

text \<open>
  The lines of a key as the report shows them, and the report of the archive scan from
  the gathered results, in whatever order they are merged.
\<close>

definition category_lines :: "issue_lists \<Rightarrow> category \<Rightarrow> string list" where
  "category_lines reg c = sorted_list_of_set (reg c)"


text \<open>The events of the loose-file scan and the results of the archive scan, in task order.\<close>

definition unpacked_events :: "world \<Rightarrow> path \<Rightarrow> (string \<times> string) list \<Rightarrow> dir_data list \<Rightarrow> event list" where
  "unpacked_events w mod_path xse_scriptfiles all_dirs_data =
     fst (unpacked_run w mod_path xse_scriptfiles all_dirs_data)"



section \<open>Little-endian decoding\<close>

lemma or_push_bit_nat:
  fixes a b :: nat
  assumes "a < 2 ^ k"
  shows "a OR push_bit k b = a + push_bit k b"
proof -
  have "take_bit k a = a" using assms by (simp add: take_bit_nat_eq_self)
  then have lt: "\<And>n. bit a n \<Longrightarrow> n < k"
    by (metis bit_take_bit_iff)
  have "a + push_bit k b = a OR push_bit k b"
  proof (rule disjunctive_add)
    fix n
    show "\<not> bit a n \<or> \<not> bit (push_bit k b) n"
      using lt [of n] by (auto simp: bit_push_bit_iff)
  qed
  then show ?thesis by simp
qed

lemma unat_byte_lt: "unat (b :: byte) < 256"
  using unsigned_less [of b, where 'a = nat] by simp

lemma unat_ucast_byte: "unat (ucast (b :: byte) :: 32 word) = unat b"
  by (simp add: unsigned_ucast_eq take_bit_nat_eq_self_iff) (use unat_byte_lt [of b] in simp)

lemma unat_push_ucast:
  assumes "k \<le> 24"
  shows "unat (push_bit k (ucast (b :: byte) :: 32 word)) = push_bit k (unat b)"
proof -
  have "2 ^ k * unat b < 2 ^ k * 2 ^ 8" using unat_byte_lt [of b] by simp
  also have "\<dots> = 2 ^ (k + 8)" by (simp add: power_add)
  also have "\<dots> \<le> (2::nat) ^ 32" using assms by (intro power_increasing) auto
  finally have "push_bit k (unat b) < (2::nat) ^ 32" by (simp add: push_bit_eq_mult mult.commute)
  then have "take_bit 32 (push_bit k (unat b)) = push_bit k (unat b)"
    by (simp only: take_bit_nat_eq_self)
  then show ?thesis
    by (simp only: unsigned_push_bit_eq unat_ucast_byte) simp
qed

lemma unat_le32:
  fixes b0 b1 b2 b3 :: byte
  shows "unat ((ucast b0 :: 32 word) OR push_bit 8 (ucast b1) OR push_bit 16 (ucast b2) OR push_bit 24 (ucast b3))
       = unat b0 + 256 * unat b1 + 65536 * unat b2 + 16777216 * unat b3"
proof -
  have l0: "unat b0 < 2 ^ 8" using unat_byte_lt [of b0] by simp
  have l1: "unat b1 < 2 ^ 8" using unat_byte_lt [of b1] by simp
  have l2: "unat b2 < 2 ^ 8" using unat_byte_lt [of b2] by simp
  have s1: "unat b0 + push_bit 8 (unat b1) < 2 ^ 16" using l0 l1 by (simp add: push_bit_eq_mult)
  have s2: "unat b0 + push_bit 8 (unat b1) + push_bit 16 (unat b2) < 2 ^ 24"
    using l0 l1 l2 by (simp add: push_bit_eq_mult)
  have "unat ((ucast b0 :: 32 word) OR push_bit 8 (ucast b1) OR push_bit 16 (ucast b2) OR push_bit 24 (ucast b3))
      = unat b0 OR (push_bit 8 (unat b1) OR (push_bit 16 (unat b2) OR push_bit 24 (unat b3)))"
    by (simp only: unsigned_or_eq unat_ucast_byte unat_push_ucast [of 8] unat_push_ucast [of 16] unat_push_ucast [of 24])
  also have "\<dots> = ((unat b0 OR push_bit 8 (unat b1)) OR push_bit 16 (unat b2)) OR push_bit 24 (unat b3)"
    by (simp only: or.assoc)
  also have "\<dots> = unat b0 + push_bit 8 (unat b1) + push_bit 16 (unat b2) + push_bit 24 (unat b3)"
    by (simp only: or_push_bit_nat [OF l0] or_push_bit_nat [OF s1] or_push_bit_nat [OF s2])
  finally show ?thesis by (simp add: push_bit_eq_mult)
qed


lemma list4_conv:
  assumes "length xs = 4"
  shows "xs = [xs ! 0, xs ! 1, xs ! 2, xs ! 3]"
proof -
  from assms obtain a b c d where "xs = [a, b, c, d]"
    by (auto simp: length_Suc_conv eval_nat_numeral)
  then show ?thesis by simp
qed

lemma unpack_slice:
  assumes "off + 4 \<le> length bs"
  shows "\<exists>w. unpack_uint32_le (slice off (off + 4) bs) = Inr w \<and> unat w = uint32_le_at off bs"
proof -
  let ?xs = "slice off (off + 4) bs"
  have len: "length ?xs = 4" using assms by (simp add: slice_def)
  have nth: "\<And>i. i < 4 \<Longrightarrow> ?xs ! i = bs ! (off + i)"
    using assms by (simp add: slice_def)
  have "?xs = [bs ! off, bs ! (off + 1), bs ! (off + 2), bs ! (off + 3)]"
    using list4_conv [OF len] nth [of 0] nth [of 1] nth [of 2] nth [of 3] by simp
  then show ?thesis
    by (simp add: unpack_uint32_le_def unat_le32 uint32_le_at_def)
qed

lemma unpack_short:
  assumes "length bs < off + 4"
  shows "unpack_uint32_le (slice off (off + 4) bs) = Inl StructError"
proof -
  have "length (slice off (off + 4) bs) < 4" using assms by (simp add: slice_def)
  then show ?thesis
    by (auto simp: unpack_uint32_le_def split: list.splits)
qed

text \<open>
  Claim C6. Of a loose texture file only the first 20 bytes matter. When its first four
  bytes are not the magic tag the check adds nothing. When they are, and the 20 bytes of
  the header are there, exactly one texture-dimensions line is added if the little-endian
  32-bit number at offset 12 (the width) or the one at offset 16 (the height) is odd, and
  nothing is added otherwise.
\<close>

theorem check_single_dds_header:
  assumes "files file_path = Some content"
  shows "(take 4 content \<noteq> dds_magic \<longrightarrow> check_single_dds files file_path rel = Inr [])
       \<and> (take 4 content = dds_magic \<and> 20 \<le> length content \<longrightarrow>
            check_single_dds files file_path rel =
              Inr (if odd (uint32_le_at 12 content) \<or> odd (uint32_le_at 16 content)
                   then [(tex_dims, dds_line rel (uint32_le_at 12 content) (uint32_le_at 16 content))]
                   else []))
       \<and> (\<forall>content'. take 20 content' = take 20 content \<longrightarrow>
            check_single_dds (files (file_path \<mapsto> content')) file_path rel
              = check_single_dds files file_path rel)"
proof (intro conjI impI allI)
  assume "take 4 content \<noteq> dds_magic"
  then show "check_single_dds files file_path rel = Inr []"
    using assms by (simp add: check_single_dds_def)
next
  assume h: "take 4 content = dds_magic \<and> 20 \<le> length content"
  let ?d = "take 20 content"
  have l: "12 + 4 \<le> length ?d" "16 + 4 \<le> length ?d" using h by simp_all
  obtain w where w: "unpack_uint32_le (slice 12 16 ?d) = Inr w" "unat w = uint32_le_at 12 ?d"
    using unpack_slice [OF l(1)] by auto
  obtain ht where ht: "unpack_uint32_le (slice 16 20 ?d) = Inr ht" "unat ht = uint32_le_at 16 ?d"
    using unpack_slice [OF l(2)] by auto
  have e: "uint32_le_at 12 ?d = uint32_le_at 12 content" "uint32_le_at 16 ?d = uint32_le_at 16 content"
    by (simp_all add: uint32_le_at_def)
  show "check_single_dds files file_path rel =
          Inr (if odd (uint32_le_at 12 content) \<or> odd (uint32_le_at 16 content)
               then [(tex_dims, dds_line rel (uint32_le_at 12 content) (uint32_le_at 16 content))]
               else [])"
    using assms h w ht e
    by (simp add: check_single_dds_def dds_line_def odd_iff_mod_2_eq_one)
next
  fix content'
  assume "take 20 content' = take 20 content"
  then show "check_single_dds (files (file_path \<mapsto> content')) file_path rel
           = check_single_dds files file_path rel"
    using assms by (simp add: check_single_dds_def)
qed

text \<open>Width 101 and height 200 give a line, width 100 and height 200 give none.\<close>

theorem check_single_dds_header_witness:
  "check_single_dds (\<lambda>p. Some (dds_header_of 101 200)) (Path drive_c [''mods'', ''a.dds'']) (Path [] [''a.dds''])
      = Inr [(tex_dims, ''  - a.dds (101x200)'')]
   \<and> check_single_dds (\<lambda>p. Some (dds_header_of 100 200)) (Path drive_c [''mods'', ''a.dds'']) (Path [] [''a.dds''])
      = Inr []"
  using check_single_dds_header [of "\<lambda>p. Some (dds_header_of 101 200)" "Path drive_c [''mods'', ''a.dds'']"
      "dds_header_of 101 200" "Path [] [''a.dds'']"]
    check_single_dds_header [of "\<lambda>p. Some (dds_header_of 100 200)" "Path drive_c [''mods'', ''a.dds'']"
      "dds_header_of 100 200" "Path [] [''a.dds'']"]
  by (simp add: dds_header_of_def dds_magic_def uint32_le_at_def dds_line_def path_str_def
      show_nat.simps digit_char_def)

section \<open>Archive headers\<close>

lemma add_issue_empty: "add_issue (c, line) empty_issues = only_issue c line"
  by (auto simp: add_issue_def empty_issues_def only_issue_def fun_eq_iff)

text \<open>
  Claim C2. For an archive whose header could be read: when the first four bytes are
  \<open>BTDX\<close> and bytes 8 to 12 are \<open>GNRL\<close>, the archive tool is called once, with
  \<open>-list\<close>; when they are \<open>DX10\<close>, once with \<open>-dump\<close>; for every other header the
  result is exactly one archive-format line, which shows the header bytes, and the tool
  is not called. The calls are those of \<open>create_subprocess_exec\<close>.
\<close>

theorem process_single_ba2_header:
  assumes "file_bytes w file_path = Some content"
  shows "(take 4 content = btdx \<and> drop 8 (take 12 content) = gnrl \<longrightarrow>
            snd (process_single_ba2 w bsarch_path xse_scriptfiles (file_path, filename))
              = [(file_path, ''-list'')])
       \<and> (take 4 content = btdx \<and> drop 8 (take 12 content) = dx10 \<longrightarrow>
            snd (process_single_ba2 w bsarch_path xse_scriptfiles (file_path, filename))
              = [(file_path, ''-dump'')])
       \<and> (\<not> (take 4 content = btdx \<and> (drop 8 (take 12 content) = gnrl \<or> drop 8 (take 12 content) = dx10)) \<longrightarrow>
            process_single_ba2 w bsarch_path xse_scriptfiles (file_path, filename)
              = (Inr (only_issue ba2_frmt
                        (''  - '' @ filename @ '' : '' @ bytes_repr (take 12 content) @ ''\<newline>'')), []))"
proof -
  have ne: "gnrl \<noteq> dx10" by (simp add: gnrl_def dx10_def)
  show ?thesis
    using assms ne
    by (auto simp: process_single_ba2_def create_subprocess_exec_def add_issue_empty
        split: proc_result.splits)
qed

lemma sample_world_simps:
  "file_bytes sample_world = map_of sample_files"
  "test_mode sample_world = True"
  "walk sample_world mods_root = Some sample_tree"
  "mods_folder_path sample_world = Some mods_root"
  "local_dir sample_world = Path drive_c [''classic'']"
  by (simp_all add: sample_world_def)

lemma sample_files_simps:
  "map_of sample_files (joinpath mods_root [''ModA'', ''Main.ba2'']) = Some gnrl_archive"
  "map_of sample_files (joinpath mods_root [''ModA'', ''Tex.ba2'']) = Some dx10_archive"
  "map_of sample_files (joinpath mods_root [''ModA'', ''Bad.ba2'']) = Some bad_archive"
  by (simp_all add: sample_files_def joinpath_def mods_root_def)

text \<open>How the header of the third sample archive is printed.\<close>

lemma bytes_repr_bad_archive:
  "bytes_repr (take 12 bad_archive)
     = ''b'' @ [squote] @ ''BTDX'' @ [bslash] @ ''x01'' @ [bslash] @ ''x00'' @ [bslash] @ ''x00''
         @ [bslash] @ ''x00XXXX'' @ [squote]"
  by code_simp

text \<open>The three archives of the sample installation, one for each case.\<close>

theorem process_single_ba2_header_witness:
  "snd (process_single_ba2 sample_world (bsarch_path_of sample_world) [(''Actor.pex'', ''0'')]
          (joinpath mods_root [''ModA'', ''Main.ba2''], ''Main.ba2''))
     = [(joinpath mods_root [''ModA'', ''Main.ba2''], ''-list'')]
   \<and> snd (process_single_ba2 sample_world (bsarch_path_of sample_world) [(''Actor.pex'', ''0'')]
          (joinpath mods_root [''ModA'', ''Tex.ba2''], ''Tex.ba2''))
     = [(joinpath mods_root [''ModA'', ''Tex.ba2''], ''-dump'')]
   \<and> process_single_ba2 sample_world (bsarch_path_of sample_world) [(''Actor.pex'', ''0'')]
          (joinpath mods_root [''ModA'', ''Bad.ba2''], ''Bad.ba2'')
     = (Inr (only_issue ba2_frmt (''  - Bad.ba2 : '' @ bytes_repr (take 12 bad_archive) @ ''\<newline>'')), [])"
  using process_single_ba2_header [of sample_world "joinpath mods_root [''ModA'', ''Main.ba2'']"
      gnrl_archive "bsarch_path_of sample_world" "[(''Actor.pex'', ''0'')]" "''Main.ba2''"]
    process_single_ba2_header [of sample_world "joinpath mods_root [''ModA'', ''Tex.ba2'']"
      dx10_archive "bsarch_path_of sample_world" "[(''Actor.pex'', ''0'')]" "''Tex.ba2''"]
    process_single_ba2_header [of sample_world "joinpath mods_root [''ModA'', ''Bad.ba2'']"
      bad_archive "bsarch_path_of sample_world" "[(''Actor.pex'', ''0'')]" "''Bad.ba2''"]
  by (simp add: sample_world_simps sample_files_simps gnrl_archive_def
      dx10_archive_def bad_archive_def btdx_def gnrl_def dx10_def)


section \<open>Case of the archive tool's output\<close>



text \<open>
  Both calls of \<open>create_subprocess_exec\<close> pass \<open>text=True\<close>: the call raises \<open>ValueError\<close>,
  which is caught, and the archive gives no issue, whatever the tool would print.
\<close>

lemma create_subprocess_exec_text: "create_subprocess_exec w program file_path subcommand True = ProcRaised ValueError"
  by (simp add: create_subprocess_exec_def)

lemma process_single_ba2_refused:
  assumes "file_bytes w file_path = Some content"
    and "take 4 content = btdx"
    and "drop 8 (take 12 content) = gnrl \<or> drop 8 (take 12 content) = dx10"
  shows "fst (process_single_ba2 w bsarch_path xse_scriptfiles (file_path, filename)) = Inr empty_issues"
  using assms
  by (auto simp: process_single_ba2_def create_subprocess_exec_text caught_by_ba2_def)






section \<open>The loops of the loose-file scan\<close>

lemma classify_file_xse:
  "classify_file mod_path rel xse_scriptfiles has_xse has_previs filename = XseFile
     \<longleftrightarrow> \<not> has_xse \<and> xse_collision mod_path rel xse_scriptfiles filename"
  by (auto simp: classify_file_def xse_collision_def Let_def)

lemma scan_files_no_xse:
  "events_of xse_file (fst (scan_files mod_path rel xse_scriptfiles True has_previs files)) = []"
proof (induction files arbitrary: has_previs)
  case Nil
  then show ?case by (simp add: events_of_def)
next
  case (Cons f files)
  have "classify_file mod_path rel xse_scriptfiles True has_previs f \<noteq> XseFile"
    by (simp add: classify_file_xse)
  then show ?case
    using Cons.IH [of has_previs] Cons.IH [of True]
    by (auto simp: events_of_def Let_def split_beta split: file_action.splits)
qed

lemma scan_files_xse:
  "events_of xse_file (fst (scan_files mod_path rel xse_scriptfiles False has_previs files))
     = (if \<exists>f \<in> set files. xse_collision mod_path rel xse_scriptfiles f
        then [(xse_file, root_main_line rel)] else [])"
proof (induction files arbitrary: has_previs)
  case Nil
  then show ?case by (simp add: events_of_def)
next
  case (Cons f files)
  show ?case
  proof (cases "xse_collision mod_path rel xse_scriptfiles f")
    case True
    then have "classify_file mod_path rel xse_scriptfiles False has_previs f = XseFile"
      by (simp add: classify_file_xse)
    then show ?thesis
      using True scan_files_no_xse [of mod_path rel xse_scriptfiles has_previs files]
      by (auto simp: events_of_def Let_def split_beta root_main_line_def)
  next
    case False
    then have "classify_file mod_path rel xse_scriptfiles False has_previs f \<noteq> XseFile"
      by (simp add: classify_file_xse)
    then show ?thesis
      using False Cons.IH [of has_previs] Cons.IH [of True]
      by (auto simp: events_of_def Let_def split_beta split: file_action.splits)
  qed
qed


lemma events_of_append: "events_of c (xs @ ys) = events_of c xs @ events_of c ys"
  by (simp add: events_of_def)

lemma events_of_none: "c \<notin> fst ` set es \<Longrightarrow> events_of c es = []"
  by (auto simp: events_of_def filter_empty_conv)

lemma scan_dirs_categories: "fst ` set (fst (scan_dirs line b dirs)) \<subseteq> {animdata}"
proof (induction dirs arbitrary: b)
  case Nil
  then show ?case by simp
next
  case (Cons d dirs)
  show ?case
    using Cons.IH [of b] Cons.IH [of True]
    by (auto simp: Let_def split_beta)
qed

lemma scan_dirs_animdata:
  "length (events_of animdata (fst (scan_dirs line b dirs))) \<le> (if b then 0 else 1)"
proof (induction dirs arbitrary: b)
  case Nil
  then show ?case by (simp add: events_of_def)
next
  case (Cons d dirs)
  show ?case
    using Cons.IH [of b] Cons.IH [of True]
    by (auto simp: Let_def split_beta events_of_def)
qed

lemma move_fomod_categories:
  "fst ` set (fst (move_fomod_async w mod_path backup_path rel dirname)) \<subseteq> {cleanup}"
  by (auto simp: move_fomod_async_def Let_def split: io_result.splits)

lemma move_file_categories:
  "fst ` set (fst (move_file_async w mod_path backup_path rel filename)) \<subseteq> {cleanup}"
  by (auto simp: move_file_async_def Let_def split: io_result.splits)

lemma check_single_dds_categories:
  "fst ` set (swallow (check_single_dds files file_path relative_path)) \<subseteq> {tex_dims}"
  by (auto simp: swallow_def check_single_dds_def Let_def split: option.splits sum.splits if_splits)

lemma check_dds_batch_categories: "fst ` set (check_dds_batch files dds_files) \<subseteq> {tex_dims}"
  using check_single_dds_categories by (fastforce simp: check_dds_batch_def)

lemma scan_files_categories:
  "fst ` set (fst (scan_files mod_path rel xse_scriptfiles has_xse has_previs files))
     \<subseteq> {tex_frmt, snd_frmt, xse_file, previs}"
proof (induction files arbitrary: has_xse has_previs)
  case Nil
  then show ?case by simp
next
  case (Cons f files)
  show ?case
    using Cons.IH [of has_xse has_previs] Cons.IH [of True has_previs] Cons.IH [of has_xse True]
    by (auto simp: Let_def split_beta split: file_action.splits)
qed

lemma scan_files_previs:
  "length (events_of previs (fst (scan_files mod_path rel xse_scriptfiles has_xse has_previs files)))
     \<le> (if has_previs then 0 else 1)"
proof (induction files arbitrary: has_xse has_previs)
  case Nil
  then show ?case by (simp add: events_of_def)
next
  case (Cons f files)
  have p: "has_previs \<Longrightarrow> classify_file mod_path rel xse_scriptfiles has_xse has_previs f \<noteq> Previs"
    by (auto simp: classify_file_def Let_def)
  show ?case
    using p Cons.IH [of has_xse has_previs] Cons.IH [of True has_previs] Cons.IH [of has_xse True]
    by (auto simp: Let_def split_beta events_of_def split: file_action.splits)
qed

lemma concat_categories:
  assumes "\<And>x. x \<in> set xs \<Longrightarrow> fst ` set (f x) \<subseteq> C"
  shows "fst ` set (concat (map f xs)) \<subseteq> C"
  using assms by fastforce

lemma process_directory_events:
  "fst (process_directory w mod_path backup_path xse_scriptfiles (rel, dirs, files))
     = fst (scan_dirs (path_str (parent (Path [] rel))) False dirs)
       @ concat (map (\<lambda>d. fst (move_fomod_async w mod_path backup_path rel d))
                     (snd (scan_dirs (path_str (parent (Path [] rel))) False dirs)))
       @ fst (scan_files mod_path rel xse_scriptfiles False False files)
       @ concat (map (\<lambda>f. fst (move_file_async w mod_path backup_path rel f))
                     (fst (snd (scan_files mod_path rel xse_scriptfiles False False files))))
       @ check_dds_batch (file_bytes w) (snd (snd (scan_files mod_path rel xse_scriptfiles False False files)))"
  by (simp add: process_directory_def Let_def check_dds_batch_def map_concat comp_def split: prod.splits)

lemma moves_no_event:
  assumes "c \<noteq> cleanup"
  shows "events_of c (concat (map (\<lambda>d. fst (move_fomod_async w mod_path backup_path rel d)) ds)) = []"
    and "events_of c (concat (map (\<lambda>f. fst (move_file_async w mod_path backup_path rel f)) fs)) = []"
proof -
  have "fst ` set (concat (map (\<lambda>d. fst (move_fomod_async w mod_path backup_path rel d)) ds)) \<subseteq> {cleanup}"
    by (rule concat_categories) (rule move_fomod_categories)
  then show "events_of c (concat (map (\<lambda>d. fst (move_fomod_async w mod_path backup_path rel d)) ds)) = []"
    using assms by (intro events_of_none) auto
  have "fst ` set (concat (map (\<lambda>f. fst (move_file_async w mod_path backup_path rel f)) fs)) \<subseteq> {cleanup}"
    by (rule concat_categories) (rule move_file_categories)
  then show "events_of c (concat (map (\<lambda>f. fst (move_file_async w mod_path backup_path rel f)) fs)) = []"
    using assms by (intro events_of_none) auto
qed

lemma dds_no_event: "c \<noteq> tex_dims \<Longrightarrow> events_of c (check_dds_batch files ds) = []"
  using check_dds_batch_categories [of files ds] by (intro events_of_none) auto

lemma scan_dirs_no_event: "c \<noteq> animdata \<Longrightarrow> events_of c (fst (scan_dirs line b dirs)) = []"
  using scan_dirs_categories [of line b dirs] by (intro events_of_none) auto

lemma scan_files_no_event:
  "c \<notin> {tex_frmt, snd_frmt, xse_file, previs} \<Longrightarrow>
     events_of c (fst (scan_files mod_path rel xse_scriptfiles hx hp files)) = []"
  using scan_files_categories [of mod_path rel xse_scriptfiles hx hp files]
  by (intro events_of_none) auto

lemma process_directory_xse:
  "events_of xse_file (fst (process_directory w mod_path backup_path xse_scriptfiles (rel, dirs, files)))
     = (if \<exists>f \<in> set files. xse_collision mod_path rel xse_scriptfiles f
        then [(xse_file, root_main_line rel)] else [])"
  by (simp only: process_directory_events events_of_append scan_files_xse)
     (simp add: moves_no_event dds_no_event scan_dirs_no_event)

lemma process_directory_single:
  assumes "single_detection c"
  shows "length (events_of c (fst (process_directory w mod_path backup_path xse_scriptfiles (rel, dirs, files)))) \<le> 1"
proof -
  consider "c = animdata" | "c = xse_file" | "c = previs"
    using assms by (auto simp: single_detection_def)
  then show ?thesis
  proof cases
    case 1
    then show ?thesis
      using scan_dirs_animdata [of "path_str (parent (Path [] rel))" False dirs]
      by (simp add: process_directory_events events_of_append moves_no_event dds_no_event
          scan_files_no_event)
  next
    case 2
    then show ?thesis by (simp add: process_directory_xse)
  next
    case 3
    then show ?thesis
      using scan_files_previs [of mod_path rel xse_scriptfiles False False files]
      by (simp add: process_directory_events events_of_append moves_no_event dds_no_event
          scan_dirs_no_event)
  qed
qed

text \<open>
  Claim C4 as stated fails. The path of the script has a segment \<open>Scripts\<close>, its name is
  a configured one and its path does not hold \<open>workshop framework\<close>, and nothing is
  recorded: the scan looks in the text of the path for \<open>Scripts\<close>, a backslash and the
  file's name, one after the other, and the text of this path does not hold them.
\<close>

theorem xse_scripts_segment_counterexample:
  "''Scripts'' \<in> set (path_parts (joinpath mods_root [''ModA'', ''Scripts'', ''Source'', ''Actor.pex'']))
   \<and> lower ''Actor.pex'' \<in> set (map lower (map fst sample_scripts))
   \<and> \<not> contains (lower (path_str (joinpath mods_root [''ModA'', ''Scripts'', ''Source'', ''Actor.pex''])))
          ''workshop framework''
   \<and> events_of xse_file
        (fst (process_directory sample_world mods_root (backup_path_of sample_world) sample_scripts
                ([''ModA'', ''Scripts'', ''Source''], [], [''Actor.pex'']))) = []"
  by code_simp

text \<open>
  Claim C4, amended. A directory gets a script-extender-collision line exactly when one
  of its files is not taken by an earlier branch of the chain (a documentation file, a
  \<open>.dds\<close>, a \<open>.tga\<close> or \<open>.png\<close> outside \<open>BodySlide\<close>, an \<open>.mp3\<close> or \<open>.m4a\<close>),
  has a name equal up to case to a configured script-extender name, lies in a directory
  whose path does not hold \<open>workshop framework\<close>, and has \<open>Scripts\<close>, a backslash and
  its own name, one after the other, somewhere in the text of its path. The line is added
  once for the directory, however many such files there are.
\<close>

theorem xse_collision_per_directory:
  "events_of xse_file (fst (process_directory w mod_path backup_path xse_scriptfiles (rel, dirs, files)))
     = (if \<exists>f \<in> set files. xse_collision mod_path rel xse_scriptfiles f
        then [(xse_file, root_main_line rel)] else [])"
  by (rule process_directory_xse)

lemma sample_script_collides:
  "xse_collision mods_root [''ModA'', ''Scripts''] sample_scripts ''Actor.pex''"
  by code_simp

text \<open>
  The last condition is one on the text of the path, not on the directory of the file: a
  file in a directory \<open>Actor.pex.bak\<close> below \<open>Scripts\<close> meets it.
\<close>

lemma sample_script_text_collides:
  "xse_collision mods_root [''ModA'', ''Scripts'', ''Actor.pex.bak''] sample_scripts ''Actor.pex''"
  by code_simp

text \<open>Two copies of the script in one directory give one line.\<close>

theorem xse_collision_per_directory_witness:
  "(\<exists>f \<in> set [''Actor.pex'', ''actor.PEX'']. xse_collision mods_root [''ModA'', ''Scripts''] sample_scripts f)
   \<and> events_of xse_file
        (fst (process_directory sample_world mods_root (backup_path_of sample_world) sample_scripts
                ([''ModA'', ''Scripts''], [], [''Actor.pex'', ''actor.PEX''])))
       = [(xse_file, root_main_line [''ModA'', ''Scripts''])]"
  using xse_collision_per_directory [of sample_world mods_root "backup_path_of sample_world"
      sample_scripts "[''ModA'', ''Scripts'']" "[]" "[''Actor.pex'', ''actor.PEX'']"]
    sample_script_collides
  by simp

section \<open>The loops of the archive scan\<close>

lemma add_issue_apply:
  "add_issue (c', l) acc c = (if c = c' then insert l (acc c) else acc c)"
  by (simp add: add_issue_def)

lemma list_lines_single:
  assumes "single_detection c"
  shows "list_lines xse_scriptfiles file_path filename a x p lines acc c
           \<subseteq> acc c \<union> {''  - '' @ filename @ ''\<newline>''}"
  using assms
proof (induction lines arbitrary: a x p acc)
  case Nil
  then show ?case by auto
next
  case (Cons l lines)
  let ?L = "''  - '' @ filename @ ''\<newline>''"
  have step: "list_lines xse_scriptfiles file_path filename a' x' p' lines acc' c \<subseteq> acc c \<union> {?L}"
    if "acc' c \<subseteq> acc c \<union> {?L}" for a' x' p' acc'
    using Cons.IH [OF Cons.prems, of a' x' p' acc'] that by blast
  have s1: "add_issue (snd_frmt, u) acc c \<subseteq> acc c \<union> {?L}" for u
    using Cons.prems by (auto simp: add_issue_apply single_detection_def)
  have s2: "add_issue (k, ?L) acc c \<subseteq> acc c \<union> {?L}" for k
    by (auto simp: add_issue_apply)
  have s3: "acc c \<subseteq> acc c \<union> {?L}" by auto
  show ?case
    by (simp only: list_lines.simps split: if_split)
       (intro conjI impI; rule step; (rule s1 | rule s2 | rule s3))
qed

lemma dump_blocks_other:
  assumes "c \<notin> {tex_frmt, tex_dims}" and "dump_blocks filename blocks acc = Inr r"
  shows "r c = acc c"
  using assms
proof (induction blocks arbitrary: acc)
  case Nil
  then show ?case by simp
next
  case (Cons b rest)
  have step: "dump_blocks filename rest acc' = Inr r \<Longrightarrow> acc' c = acc c \<Longrightarrow> r c = acc c" for acc'
    using Cons.IH [OF Cons.prems(1), of acc'] by simp
  have other: "add_issue (tex_frmt, u) acc c = acc c" "add_issue (tex_dims, u) acc c = acc c" for u
    using Cons.prems(1) by (auto simp: add_issue_apply)
  from Cons.prems(2) show ?case
    by (auto simp: Let_def other split: if_splits list.splits dest: step)
qed

lemma process_single_ba2_single:
  assumes "single_detection c"
    and "fst (process_single_ba2 w bsarch_path xse_scriptfiles (file_path, filename)) = Inr issues"
  shows "issues c \<subseteq> {''  - '' @ filename @ ''\<newline>''}"
proof -
  have c: "c \<notin> {tex_frmt, tex_dims}" "c \<noteq> ba2_frmt"
    using assms(1) by (auto simp: single_detection_def)
  have e: "empty_issues c = {}" by (simp add: empty_issues_def)
  have b: "add_issue (ba2_frmt, u) empty_issues c = {}" for u
    using c(2) by (simp add: add_issue_apply e)
  have l: "list_lines xse_scriptfiles file_path filename False False False lines empty_issues c
             \<subseteq> {''  - '' @ filename @ ''\<newline>''}" for lines
    using list_lines_single [OF assms(1), of xse_scriptfiles file_path filename False False False lines empty_issues]
    by (simp add: e)
  have d: "dump_blocks filename blocks empty_issues = Inr r \<Longrightarrow> r c = {}" for blocks r
    using dump_blocks_other [OF c(1), of filename blocks empty_issues r] by (simp add: e)
  show ?thesis
    using assms(2) l
    by (auto simp: process_single_ba2_def create_subprocess_exec_def Let_def e b
        split: option.splits if_splits proc_result.splits dest!: d)
qed

text \<open>
  Claim C5. For each of the three single-detection keys, a directory of the loose-file
  scan adds at most one line (the event is raised at most once, however many entries
  match), and an archive of the archive scan returns at most one line.
\<close>

theorem single_detection_once:
  assumes "single_detection c"
  shows "length (events_of c (fst (process_directory w mod_path backup_path xse_scriptfiles dd))) \<le> 1
       \<and> finite (issues_of (fst (process_single_ba2 w bsarch_path xse_scriptfiles ba2)) c)
       \<and> card (issues_of (fst (process_single_ba2 w bsarch_path xse_scriptfiles ba2)) c) \<le> 1"
proof -
  obtain rel dirs files where dd: "dd = (rel, dirs, files)" by (cases dd) auto
  have 1: "length (events_of c (fst (process_directory w mod_path backup_path xse_scriptfiles dd))) \<le> 1"
    unfolding dd by (rule process_directory_single [OF assms])
  obtain file_path filename where ba2: "ba2 = (file_path, filename)" by (cases ba2) auto
  have sub: "issues_of (fst (process_single_ba2 w bsarch_path xse_scriptfiles ba2)) c
               \<subseteq> {''  - '' @ filename @ ''\<newline>''}"
  proof (cases "fst (process_single_ba2 w bsarch_path xse_scriptfiles ba2)")
    case (Inl e)
    then show ?thesis by (simp add: issues_of_def empty_issues_def)
  next
    case (Inr issues)
    then show ?thesis
      using process_single_ba2_single [OF assms, of w bsarch_path xse_scriptfiles file_path filename issues]
      by (simp add: issues_of_def ba2)
  qed
  have 2: "finite (issues_of (fst (process_single_ba2 w bsarch_path xse_scriptfiles ba2)) c)"
    using sub by (rule finite_subset) simp
  have 3: "card (issues_of (fst (process_single_ba2 w bsarch_path xse_scriptfiles ba2)) c) \<le> 1"
    using card_mono [OF _ sub] by simp
  from 1 2 3 show ?thesis by simp
qed

text \<open>
  A directory with two previs files and two animation-data folders, and the general
  archive of the sample installation. The loop over a listing adds one line for the two
  previs entries of the sample listing; in the scan the archive gives no line, since the
  tool is not started.
\<close>

lemma two_previs_files_one_event:
  "events_of previs
     (fst (process_directory sample_world mods_root (backup_path_of sample_world) sample_scripts
             ([''ModA'', ''Meshes''], [''AnimationFileData'', ''animationfiledata''],
              [''a.uvd'', ''b_oc.nif''])))
     = [(previs, ''  - ModA\<newline>'')]"
  "events_of animdata
     (fst (process_directory sample_world mods_root (backup_path_of sample_world) sample_scripts
             ([''ModA'', ''Meshes''], [''AnimationFileData'', ''animationfiledata''],
              [''a.uvd'', ''b_oc.nif''])))
     = [(animdata, ''  - ModA\<newline>'')]"
  by code_simp+

lemma sample_listing_previs:
  "list_lines sample_scripts (fst main_archive) ''Main.ba2'' False False False
     (drop 15 (split_sep ''\<newline>'' (lower sample_listing))) empty_issues previs
     = {''  - Main.ba2\<newline>''}"
  by code_simp

lemma sample_archive_previs:
  "issues_of (fst (process_single_ba2 sample_world (bsarch_path_of sample_world) sample_scripts
                     main_archive)) previs = {}"
  by code_simp

theorem single_detection_once_witness:
  "single_detection previs
   \<and> length (events_of previs
        (fst (process_directory sample_world mods_root (backup_path_of sample_world) sample_scripts
                ([''ModA'', ''Meshes''], [''AnimationFileData'', ''animationfiledata''],
                 [''a.uvd'', ''b_oc.nif''])))) = 1
   \<and> card (issues_of (fst (process_single_ba2 sample_world (bsarch_path_of sample_world) sample_scripts
                      main_archive)) previs) = 0"
  using single_detection_once [of previs sample_world mods_root "backup_path_of sample_world"
      sample_scripts "([''ModA'', ''Meshes''], [''AnimationFileData'', ''animationfiledata''],
        [''a.uvd'', ''b_oc.nif''])" "bsarch_path_of sample_world" main_archive]
    two_previs_files_one_event(1) sample_archive_previs
  by (simp add: single_detection_def)

section \<open>The log-error scan\<close>

lemma line_matches_included:
  "line_matches (normalize_list (yaml_list w ''catch_log_errors''))
                (normalize_list (yaml_list w ''exclude_log_errors''))
     = included_line w"
  by (rule ext) (auto simp: line_matches_def included_line_def normalize_list_def contains_ci_def)

text \<open>
  Claim C7. For a log file that could be read, with the pattern lists as
  \<open>check_log_errors\<close> passes them: the lines kept are exactly those that hold,
  case-insensitively, one of the catch patterns and none of the ignore patterns, each
  behind the marker \<open>ERROR > \<close>; the file gives a block (path header, the kept lines,
  the count footer) when at least one line is kept, and nothing otherwise.
\<close>

theorem log_lines_filtered:
  assumes "read_lines w log_file_path = Some log_lines"
  shows "process_single_log w (normalize_list (yaml_list w ''catch_log_errors''))
           (normalize_list (yaml_list w ''exclude_log_errors'')) log_file_path
       = (let included = filter (included_line w) log_lines in
          if included = [] then []
          else [''[!] CAUTION : THE FOLLOWING LOG FILE REPORTS ONE OR MORE ERRORS!\<newline>'',
                ''[ Errors do not necessarily mean that the mod is not working. ]\<newline>'',
                ''\<newline>LOG PATH > '' @ path_str log_file_path @ ''\<newline>'']
               @ map (\<lambda>line. ''ERROR > '' @ line) included
               @ [''\<newline>* TOTAL NUMBER OF DETECTED LOG ERRORS * : '' @ show_nat (length included)
                    @ ''\<newline>''])"
  using assms
  by (simp add: process_single_log_def detect_errors_def line_matches_included
      format_error_report_def Let_def)

text \<open>
  The sample log: the first line holds no catch pattern, the second holds one, the third
  holds a catch pattern and an ignore pattern.
\<close>

lemma sample_log_lines:
  "read_lines sample_world sample_log
     = Some [''plugin loaded\<newline>'', ''ERROR: load failed\<newline>'', ''Keybind error ignored\<newline>'']"
  by (simp add: sample_world_def)

lemma sample_included:
  "filter (included_line sample_world)
     [''plugin loaded\<newline>'', ''ERROR: load failed\<newline>'', ''Keybind error ignored\<newline>'']
   = [''ERROR: load failed\<newline>'']"
  by code_simp

theorem log_lines_filtered_witness:
  "process_single_log sample_world (normalize_list (yaml_list sample_world ''catch_log_errors''))
           (normalize_list (yaml_list sample_world ''exclude_log_errors'')) sample_log
       = [''[!] CAUTION : THE FOLLOWING LOG FILE REPORTS ONE OR MORE ERRORS!\<newline>'',
          ''[ Errors do not necessarily mean that the mod is not working. ]\<newline>'',
          ''\<newline>LOG PATH > '' @ path_str sample_log @ ''\<newline>'',
          ''ERROR > ERROR: load failed\<newline>'',
          ''\<newline>* TOTAL NUMBER OF DETECTED LOG ERRORS * : 1\<newline>'']"
  unfolding log_lines_filtered [OF sample_log_lines] sample_included
  by (simp add: show_nat.simps digit_char_def)

section \<open>What reaches the report\<close>

lemma sublist_concat_mem: "x \<in> set xs \<Longrightarrow> sublist x (concat xs)"
proof -
  assume "x \<in> set xs"
  then obtain ys zs where "xs = ys @ x # zs" by (auto dest: split_list)
  then have "concat xs = concat ys @ x @ concat zs" by simp
  then show ?thesis unfolding sublist_def by blast
qed

lemma add_all_apply: "add_all es reg c = reg c \<union> {l. (c, l) \<in> set es}"
  unfolding add_all_def
  by (induction es arbitrary: reg) (auto simp: add_issue_def)

lemma render_issues_mem:
  assumes "c \<in> set keys" and "msgs c = Some t" and "finite (reg c)" and "l \<in> reg c"
  shows "l \<in> set (render_issues keys msgs reg)"
proof -
  have "l \<in> set (render_category msgs reg c)"
    using assms by (auto simp: render_category_def)
  then show ?thesis using assms(1) by (auto simp: render_issues_def)
qed

lemma unpacked_messages_total:
  "c \<in> set unpacked_keys \<Longrightarrow> \<exists>t. get_issue_messages a ''unpacked'' c = Some t"
  by (cases c) (simp_all add: unpacked_keys_def get_issue_messages_def unpacked_messages_def base_messages_def)

lemma archived_messages_total:
  "c \<in> set archived_keys \<Longrightarrow> \<exists>t. get_issue_messages a ''archived'' c = Some t"
  by (cases c) (simp_all add: archived_keys_def get_issue_messages_def archived_messages_def base_messages_def)

lemma process_directory_categories:
  "fst ` set (fst (process_directory w mod_path backup_path xse_scriptfiles dd)) \<subseteq> set unpacked_keys"
proof -
  obtain rel dirs files where dd: "dd = (rel, dirs, files)" by (cases dd) auto
  have 1: "fst ` set (concat (map (\<lambda>d. fst (move_fomod_async w mod_path backup_path rel d)) ds)) \<subseteq> {cleanup}" for ds
    by (rule concat_categories) (rule move_fomod_categories)
  have 2: "fst ` set (concat (map (\<lambda>f. fst (move_file_async w mod_path backup_path rel f)) fs)) \<subseteq> {cleanup}" for fs
    by (rule concat_categories) (rule move_file_categories)
  have k: "{animdata} \<subseteq> set unpacked_keys" "{cleanup} \<subseteq> set unpacked_keys"
    "{tex_frmt, snd_frmt, xse_file, previs} \<subseteq> set unpacked_keys" "{tex_dims} \<subseteq> set unpacked_keys"
    by (simp_all add: unpacked_keys_def)
  show ?thesis
    unfolding dd process_directory_events set_append image_Un
    by (intro Un_least subset_trans [OF scan_dirs_categories k(1)] subset_trans [OF 1 k(2)]
        subset_trans [OF scan_files_categories k(3)] subset_trans [OF 2 k(2)]
        subset_trans [OF check_dds_batch_categories k(4)])
qed

lemma unpacked_report_contains:
  assumes "(c, l) \<in> set events" and "c \<in> set unpacked_keys"
  shows "contains (unpacked_report a events) l"
proof -
  obtain t where t: "get_issue_messages a ''unpacked'' c = Some t"
    using unpacked_messages_total [OF assms(2)] by blast
  have "{l. (c, l) \<in> set events} \<subseteq> snd ` set events" by force
  then have fin: "finite (add_all events empty_issues c)"
    by (simp add: add_all_apply empty_issues_def finite_subset)
  have "l \<in> add_all events empty_issues c"
    using assms(1) by (simp add: add_all_apply)
  then have "l \<in> set (render_issues unpacked_keys (get_issue_messages a ''unpacked'')
                        (add_all events empty_issues))"
    using render_issues_mem [where c = c and keys = unpacked_keys and reg = "add_all events empty_issues"
        and msgs = "get_issue_messages a ''unpacked''" and t = t and l = l] assms(2) t fin by blast
  then show ?thesis
    unfolding unpacked_report_def contains_def
    by (intro sublist_concat_mem) simp
qed

lemma merge_results_apply:
  "merge_results rs reg c = reg c \<union> (\<Union>r \<in> set rs. issues_of r c)"
proof (induction rs arbitrary: reg)
  case Nil
  then show ?case by simp
next
  case (Cons r rs)
  then show ?case
    by (cases r) (auto simp: issues_of_def empty_issues_def)
qed

lemma list_lines_finite:
  "finite (acc c) \<Longrightarrow> finite (list_lines xse_scriptfiles file_path filename a x p lines acc c)"
proof (induction lines arbitrary: a x p acc)
  case Nil
  then show ?case by simp
next
  case (Cons l lines)
  have fin: "finite (add_issue e acc c)" for e
    using Cons.prems by (cases e) (auto simp: add_issue_apply)
  show ?case
    by (simp only: list_lines.simps split: if_split)
       (intro conjI impI; rule Cons.IH; (rule fin | rule Cons.prems))
qed

lemma dump_blocks_finite:
  assumes "dump_blocks filename blocks acc = Inr r" and "finite (acc c)"
  shows "finite (r c)"
  using assms
proof (induction blocks arbitrary: acc)
  case Nil
  then show ?case by simp
next
  case (Cons b rest)
  have step: "dump_blocks filename rest acc' = Inr r \<Longrightarrow> finite (acc' c) \<Longrightarrow> finite (r c)" for acc'
    using Cons.IH [of acc'] by simp
  have fin: "finite (add_issue e acc c)" for e
    using Cons.prems(2) by (cases e) (auto simp: add_issue_apply)
  from Cons.prems show ?case
    by (auto simp: Let_def fin split: if_splits list.splits dest: step)
qed

lemma process_single_ba2_finite:
  "finite (issues_of (fst (process_single_ba2 w bsarch_path xse_scriptfiles ba2)) c)"
proof -
  obtain file_path filename where ba2: "ba2 = (file_path, filename)" by (cases ba2) auto
  have e: "finite (empty_issues c)" by (simp add: empty_issues_def)
  have b: "finite (add_issue (k, u) empty_issues c)" for k u
    using e by (auto simp: add_issue_apply empty_issues_def)
  have l: "finite (list_lines xse_scriptfiles file_path filename False False False lines empty_issues c)" for lines
    using e by (rule list_lines_finite)
  have d: "dump_blocks filename blocks empty_issues = Inr r \<Longrightarrow> finite (r c)" for blocks r
    using e by (rule dump_blocks_finite [rotated])
  show ?thesis
    unfolding ba2
    by (auto simp: process_single_ba2_def create_subprocess_exec_def issues_of_def Let_def e b l
        split: option.splits if_splits proc_result.splits sum.splits dest: d)
qed

lemma archived_report_contains:
  assumes "r \<in> set results" and "line \<in> issues_of r c" and "c \<in> set archived_keys"
    and fin: "\<And>r. r \<in> set results \<Longrightarrow> finite (issues_of r c)"
  shows "contains (concat (archived_banner
           @ render_issues archived_keys (get_issue_messages a ''archived'')
               (merge_results results empty_issues))) line"
proof -
  obtain t where t: "get_issue_messages a ''archived'' c = Some t"
    using archived_messages_total [OF assms(3)] by blast
  have m: "merge_results results empty_issues c = (\<Union>r \<in> set results. issues_of r c)"
    by (simp add: merge_results_apply empty_issues_def)
  have f: "finite (merge_results results empty_issues c)"
    unfolding m using fin by blast
  have "line \<in> merge_results results empty_issues c"
    unfolding m using assms(1,2) by blast
  then have "line \<in> set (render_issues archived_keys (get_issue_messages a ''archived'')
                           (merge_results results empty_issues))"
    using render_issues_mem [where c = c and keys = archived_keys
        and reg = "merge_results results empty_issues"
        and msgs = "get_issue_messages a ''archived''" and t = t and l = line] assms(3) t f
    by blast
  then show ?thesis
    unfolding contains_def by (intro sublist_concat_mem) simp
qed

section \<open>The file operations of concurrent tasks\<close>

text \<open>
  The lines a task adds by itself, and the lines and operations of its file operations, are
  the lines and operations of \<open>process_directory\<close> run by itself.
\<close>

lemma mset_concat_map: "mset (concat (map f xs)) = (\<Sum>x\<in>#mset xs. mset (f x))"
  by (induction xs) simp_all

lemma mset_concat_map_cong:
  "mset ys = mset xs \<Longrightarrow> mset (concat (map f ys)) = mset (concat (map f xs))"
  by (simp add: mset_concat_map)

lemma mset_concat_concat:
  "(\<Sum>b\<in>#mset bs. mset (concat (map f b))) = mset (concat (map f (concat bs)))"
  by (induction bs) simp_all

lemma concat_map_Nil: "concat (map (\<lambda>x. []) xs) = []"
  by (induction xs) simp_all

lemma process_directory_plan:
  "mset (fst (process_directory w mod_path backup_path xse_scriptfiles dd))
     = mset (fst (directory_plan mod_path xse_scriptfiles dd))
       + mset (concat (map (\<lambda>a. fst (run_action w mod_path backup_path a))
                           (snd (directory_plan mod_path xse_scriptfiles dd))))"
  "snd (process_directory w mod_path backup_path xse_scriptfiles dd)
     = concat (map (\<lambda>a. snd (run_action w mod_path backup_path a))
                   (snd (directory_plan mod_path xse_scriptfiles dd)))"
proof -
  obtain rel dirs files where dd: "dd = (rel, dirs, files)" by (cases dd) auto
  have dds: "(if ds \<noteq> [] then check_dds_batch (file_bytes w) ds else [])
               = concat (map (\<lambda>x. swallow (check_single_dds (file_bytes w) (fst x) (snd x))) ds)" for ds
    by (simp add: check_dds_batch_def case_prod_unfold)
  show "mset (fst (process_directory w mod_path backup_path xse_scriptfiles dd))
     = mset (fst (directory_plan mod_path xse_scriptfiles dd))
       + mset (concat (map (\<lambda>a. fst (run_action w mod_path backup_path a))
                           (snd (directory_plan mod_path xse_scriptfiles dd))))"
    unfolding dd
    by (simp add: process_directory_def directory_plan_def Let_def split_beta run_action_def
        comp_def dds)
  show "snd (process_directory w mod_path backup_path xse_scriptfiles dd)
     = concat (map (\<lambda>a. snd (run_action w mod_path backup_path a))
                   (snd (directory_plan mod_path xse_scriptfiles dd)))"
    unfolding dd
    by (simp add: process_directory_def directory_plan_def Let_def split_beta run_action_def
        comp_def concat_map_Nil)
qed

lemma process_directory_plan_set:
  "set (fst (process_directory w mod_path backup_path xse_scriptfiles dd))
     = set (fst (directory_plan mod_path xse_scriptfiles dd))
       \<union> (\<Union>a \<in> set (snd (directory_plan mod_path xse_scriptfiles dd)).
            set (fst (run_action w mod_path backup_path a)))"
  using arg_cong [OF process_directory_plan(1) [of w mod_path backup_path xse_scriptfiles dd],
      of set_mset]
  by simp


text \<open>The lines of a wave and of the waves, and the keys they are added under.\<close>

lemma concat_batches: "0 < n \<Longrightarrow> concat (batches n xs) = xs"
proof (induction n xs rule: batches.induct)
  case (1 n xs)
  then show ?case by (subst batches.simps) auto
qed

lemma fst_run_batch:
  "fst (run_batch w mod_path backup_path xse_scriptfiles moved batch)
     = concat (map (\<lambda>dd. fst (directory_plan mod_path xse_scriptfiles dd)) batch)
       @ fst (run_actions w mod_path backup_path moved
                (sort_key (turn w)
                   (concat (map (\<lambda>dd. snd (directory_plan mod_path xse_scriptfiles dd)) batch))))"
  by (simp add: run_batch_def Let_def split_beta comp_def)

lemma fst_run_batches_Cons:
  "fst (run_batches w mod_path backup_path xse_scriptfiles moved (b # bs))
     = fst (run_batch w mod_path backup_path xse_scriptfiles moved b)
       @ fst (run_batches w mod_path backup_path xse_scriptfiles
                (moved @ sources (snd (run_batch w mod_path backup_path xse_scriptfiles moved b))) bs)"
  by (simp add: split_beta)

lemma run_action_categories:
  "fst ` set (fst (run_action w mod_path backup_path a)) \<subseteq> {cleanup, tex_dims}"
proof (cases a)
  case (MoveFomod rel d)
  then show ?thesis
    using move_fomod_categories [of w mod_path backup_path rel d] by (auto simp: run_action_def)
next
  case (MoveFile rel f)
  then show ?thesis
    using move_file_categories [of w mod_path backup_path rel f] by (auto simp: run_action_def)
next
  case (CheckDds file_path relative_path)
  then show ?thesis
    using check_dds_batch_categories [of "file_bytes w" "[(file_path, relative_path)]"]
    by (auto simp: run_action_def check_dds_batch_def)
qed

lemma run_actions_categories:
  "fst ` set (fst (run_actions w mod_path backup_path moved as)) \<subseteq> {cleanup, tex_dims}"
proof (induction as arbitrary: moved)
  case Nil
  then show ?case by simp
next
  case (Cons a as)
  show ?case
    using run_action_categories [of "after_moves moved w" mod_path backup_path a] Cons.IH
    by (simp add: split_beta image_Un)
qed

lemma directory_plan_categories:
  "fst ` set (fst (directory_plan mod_path xse_scriptfiles dd))
     \<subseteq> {animdata, tex_frmt, snd_frmt, xse_file, previs}"
proof -
  obtain rel dirs files where dd: "dd = (rel, dirs, files)" by (cases dd) auto
  show ?thesis
    using scan_dirs_categories [of "path_str (parent (Path [] rel))" False dirs]
      scan_files_categories [of mod_path rel xse_scriptfiles False False files]
    unfolding dd by (auto simp: directory_plan_def Let_def split_beta image_Un)
qed

lemma run_batch_categories:
  "fst ` set (fst (run_batch w mod_path backup_path xse_scriptfiles moved batch)) \<subseteq> set unpacked_keys"
proof -
  have k: "{cleanup, tex_dims} \<subseteq> set unpacked_keys"
    "{animdata, tex_frmt, snd_frmt, xse_file, previs} \<subseteq> set unpacked_keys"
    by (simp_all add: unpacked_keys_def)
  have 1: "fst ` set (concat (map (\<lambda>dd. fst (directory_plan mod_path xse_scriptfiles dd)) batch))
             \<subseteq> {animdata, tex_frmt, snd_frmt, xse_file, previs}"
    by (rule concat_categories) (rule directory_plan_categories)
  show ?thesis
    unfolding fst_run_batch set_append image_Un
    by (intro Un_least subset_trans [OF 1 k(2)] subset_trans [OF run_actions_categories k(1)])
qed

lemma run_batches_categories:
  "fst ` set (fst (run_batches w mod_path backup_path xse_scriptfiles moved bs)) \<subseteq> set unpacked_keys"
proof (induction bs arbitrary: moved)
  case Nil
  then show ?case by simp
next
  case (Cons b bs)
  show ?case
    unfolding fst_run_batches_Cons set_append image_Un
    by (intro Un_least run_batch_categories Cons.IH)
qed


text \<open>Every line that a task adds is in the report, whatever the other tasks do.\<close>

lemma unpacked_events_reach_report:
  assumes "(c, l) \<in> set (unpacked_events w mod_path xse_scriptfiles all_dirs_data)"
  shows "contains (unpacked_report a (unpacked_events w mod_path xse_scriptfiles all_dirs_data)) l"
proof -
  have "c \<in> set unpacked_keys"
    using assms run_batches_categories [of w mod_path "backup_path_of w" xse_scriptfiles "[]" "batches 50 all_dirs_data"]
    by (force simp: unpacked_events_def unpacked_run_def)
  then show ?thesis
    by (rule unpacked_report_contains [OF assms])
qed


text \<open>
  A move made by another task can only take lines away from a task: every line of the scan
  is a line of some directory run by itself, and under the keys whose lines the tasks add
  by themselves the lines are those of the directories, one directory after the other.
\<close>

lemma run_action_after_moves:
  "set (fst (run_action (after_moves moved w) mod_path backup_path a))
     \<subseteq> set (fst (run_action w mod_path backup_path a))"
proof (cases a)
  case (MoveFomod rel d)
  then show ?thesis
    by (auto simp: run_action_def move_fomod_async_def after_moves_def Let_def split: io_result.splits)
next
  case (MoveFile rel f)
  then show ?thesis
    by (auto simp: run_action_def move_file_async_def after_moves_def Let_def split: io_result.splits)
next
  case (CheckDds file_path relative_path)
  then show ?thesis
    by (auto simp: run_action_def check_single_dds_def after_moves_def swallow_def Let_def
        split: option.splits)
qed

lemma run_actions_subset:
  "set (fst (run_actions w mod_path backup_path moved as))
     \<subseteq> (\<Union>a \<in> set as. set (fst (run_action w mod_path backup_path a)))"
proof (induction as arbitrary: moved)
  case Nil
  then show ?case by simp
next
  case (Cons a as)
  show ?case
    using run_action_after_moves [of moved w mod_path backup_path a]
      Cons.IH [of "moved @ sources (snd (run_action (after_moves moved w) mod_path backup_path a))"]
    by (auto simp: split_beta)
qed

lemma run_batch_subset:
  "set (fst (run_batch w mod_path backup_path xse_scriptfiles moved batch))
     \<subseteq> (\<Union>dd \<in> set batch. set (fst (process_directory w mod_path backup_path xse_scriptfiles dd)))"
  using run_actions_subset [of w mod_path backup_path moved
      "sort_key (turn w) (concat (map (\<lambda>dd. snd (directory_plan mod_path xse_scriptfiles dd)) batch))"]
  unfolding fst_run_batch process_directory_plan_set
  by (simp add: subset_iff) blast

lemma run_batches_subset:
  "set (fst (run_batches w mod_path backup_path xse_scriptfiles moved bs))
     \<subseteq> (\<Union>dd \<in> set (concat bs). set (fst (process_directory w mod_path backup_path xse_scriptfiles dd)))"
proof (induction bs arbitrary: moved)
  case Nil
  then show ?case by simp
next
  case (Cons b bs)
  show ?case
    using run_batch_subset [of w mod_path backup_path xse_scriptfiles moved b]
      Cons.IH [of "moved @ sources (snd (run_batch w mod_path backup_path xse_scriptfiles moved b))"]
    unfolding fst_run_batches_Cons
    by auto
qed

lemma unpacked_events_subset:
  "set (unpacked_events w mod_path xse_scriptfiles all_dirs_data)
     \<subseteq> (\<Union>dd \<in> set all_dirs_data.
          set (fst (process_directory w mod_path (backup_path_of w) xse_scriptfiles dd)))"
  using run_batches_subset [of w mod_path "backup_path_of w" xse_scriptfiles "[]" "batches 50 all_dirs_data"]
  by (simp add: unpacked_events_def unpacked_run_def concat_batches)

lemma events_of_concat: "events_of c (concat xss) = concat (map (events_of c) xss)"
  by (induction xss) (simp_all add: events_of_def)

lemma process_directory_inline:
  assumes "c \<noteq> cleanup" and "c \<noteq> tex_dims"
  shows "events_of c (fst (process_directory w mod_path backup_path xse_scriptfiles dd))
           = events_of c (fst (directory_plan mod_path xse_scriptfiles dd))"
proof -
  obtain rel dirs files where dd: "dd = (rel, dirs, files)" by (cases dd) auto
  show ?thesis
    unfolding dd process_directory_events
    by (simp add: events_of_append moves_no_event [OF assms(1)] dds_no_event [OF assms(2)]
        directory_plan_def Let_def split_beta)
qed

lemma run_actions_inline:
  assumes "c \<noteq> cleanup" and "c \<noteq> tex_dims"
  shows "events_of c (fst (run_actions w mod_path backup_path moved as)) = []"
  using run_actions_categories [of w mod_path backup_path moved as] assms
  by (intro events_of_none) auto

lemma run_batches_inline:
  assumes "c \<noteq> cleanup" and "c \<noteq> tex_dims"
  shows "events_of c (fst (run_batches w mod_path backup_path xse_scriptfiles moved bs))
           = concat (map (\<lambda>dd. events_of c (fst (process_directory w mod_path backup_path xse_scriptfiles dd)))
                         (concat bs))"
proof (induction bs arbitrary: moved)
  case Nil
  then show ?case by (simp add: events_of_def)
next
  case (Cons b bs)
  show ?case
    unfolding fst_run_batches_Cons fst_run_batch
    by (simp add: events_of_append events_of_concat run_actions_inline [OF assms] Cons.IH
        process_directory_inline [OF assms] comp_def)
qed

lemma unpacked_events_inline:
  assumes "c \<noteq> cleanup" and "c \<noteq> tex_dims"
  shows "events_of c (unpacked_events w mod_path xse_scriptfiles all_dirs_data)
           = concat (map (\<lambda>dd. events_of c (fst (process_directory w mod_path (backup_path_of w)
                                                      xse_scriptfiles dd)))
                         all_dirs_data)"
  by (simp add: unpacked_events_def unpacked_run_def run_batches_inline [OF assms] concat_batches)


section \<open>Dry-run mode\<close>

text \<open>
  In dry-run mode no file operation is done, so that every operation finds the files as
  they were: the lines of the scan are those of the directories run by themselves.
\<close>

lemma after_moves_Nil: "after_moves [] w = w"
  by (simp add: after_moves_def gone_def)

lemma run_action_dry_ops: "test_mode w \<Longrightarrow> snd (run_action w mod_path backup_path a) = []"
  by (cases a) (simp_all add: run_action_def move_fomod_async_def move_file_async_def Let_def)

lemma run_actions_dry:
  assumes "test_mode w"
  shows "run_actions w mod_path backup_path [] as
           = (concat (map (\<lambda>a. fst (run_action w mod_path backup_path a)) as), [])"
proof (induction as)
  case Nil
  then show ?case by simp
next
  case (Cons a as)
  show ?case
    using run_action_dry_ops [OF assms, of mod_path backup_path a]
    by (simp add: after_moves_Nil split_beta Cons.IH)
qed

lemma run_batch_dry:
  assumes "test_mode w"
  shows "run_batch w mod_path backup_path xse_scriptfiles [] batch
           = (concat (map (\<lambda>dd. fst (directory_plan mod_path xse_scriptfiles dd)) batch)
              @ concat (map (\<lambda>a. fst (run_action w mod_path backup_path a))
                  (sort_key (turn w)
                     (concat (map (\<lambda>dd. snd (directory_plan mod_path xse_scriptfiles dd)) batch)))), [])"
  by (simp add: run_batch_def run_actions_dry [OF assms] Let_def comp_def)

lemma run_batches_dry:
  assumes "test_mode w"
  shows "run_batches w mod_path backup_path xse_scriptfiles [] bs
           = (concat (map (\<lambda>b. fst (run_batch w mod_path backup_path xse_scriptfiles [] b)) bs), [])"
proof (induction bs)
  case Nil
  then show ?case by simp
next
  case (Cons b bs)
  show ?case
    by (simp add: run_batch_dry [OF assms] split_beta Cons.IH)
qed

lemma dry_run_no_operations:
  assumes "test_mode w"
  shows "snd (scan_mods_unpacked w) = []"
  using assms
  by (auto simp: scan_mods_unpacked_def unpacked_run_def Let_def split_beta run_batches_dry
      split: option.splits prod.splits)

lemma unpacked_events_dry:
  assumes "test_mode w"
  shows "unpacked_events w mod_path xse_scriptfiles all_dirs_data
           = concat (map (\<lambda>b. fst (run_batch w mod_path (backup_path_of w) xse_scriptfiles [] b))
                         (batches 50 all_dirs_data))"
  by (simp add: unpacked_events_def unpacked_run_def run_batches_dry [OF assms])

lemma run_batch_dry_mset:
  assumes "test_mode w"
  shows "mset (fst (run_batch w mod_path backup_path xse_scriptfiles [] batch))
           = mset (concat (map (\<lambda>dd. fst (process_directory w mod_path backup_path xse_scriptfiles dd)) batch))"
proof -
  have "mset (concat (map (\<lambda>a. fst (run_action w mod_path backup_path a))
                (sort_key (turn w)
                   (concat (map (\<lambda>dd. snd (directory_plan mod_path xse_scriptfiles dd)) batch)))))
          = mset (concat (map (\<lambda>a. fst (run_action w mod_path backup_path a))
                   (concat (map (\<lambda>dd. snd (directory_plan mod_path xse_scriptfiles dd)) batch))))"
    by (rule mset_concat_map_cong) simp
  also have "\<dots> = (\<Sum>dd\<in>#mset batch. mset (concat (map (\<lambda>a. fst (run_action w mod_path backup_path a))
                                       (snd (directory_plan mod_path xse_scriptfiles dd)))))"
    by (induction batch) simp_all
  finally show ?thesis
    by (simp add: run_batch_dry [OF assms] mset_concat_map process_directory_plan(1)
        sum_mset.distrib)
qed

lemma unpacked_events_dry_mset:
  assumes "test_mode w"
  shows "mset (unpacked_events w mod_path xse_scriptfiles all_dirs_data)
           = mset (concat (map (\<lambda>dd. fst (process_directory w mod_path (backup_path_of w) xse_scriptfiles dd))
                               all_dirs_data))"
proof -
  have "mset (unpacked_events w mod_path xse_scriptfiles all_dirs_data)
          = (\<Sum>b\<in>#mset (batches 50 all_dirs_data).
               mset (concat (map (\<lambda>dd. fst (process_directory w mod_path (backup_path_of w) xse_scriptfiles dd)) b)))"
    by (simp add: unpacked_events_dry [OF assms] mset_concat_map run_batch_dry_mset [OF assms])
  also have "\<dots> = mset (concat (map (\<lambda>dd. fst (process_directory w mod_path (backup_path_of w) xse_scriptfiles dd))
                               (concat (batches 50 all_dirs_data))))"
    by (rule mset_concat_concat)
  finally show ?thesis by (simp add: concat_batches)
qed


text \<open>
  In dry-run mode the line of every \<open>fomod\<close> folder and of every documentation file of
  the walk is in the report.
\<close>

lemma scan_dirs_fomods:
  "set (snd (scan_dirs line b dirs)) = {d \<in> set dirs. lower d = ''fomod''}"
  by (induction dirs arbitrary: b) (auto simp: Let_def split_beta)

lemma classify_file_doc:
  "classify_file mod_path rel xse_scriptfiles a b filename = MoveDoc \<longleftrightarrow> is_doc filename"
  by (simp add: classify_file_def is_doc_def Let_def)

lemma scan_files_docs:
  "set (fst (snd (scan_files mod_path rel xse_scriptfiles a b files))) = {f \<in> set files. is_doc f}"
proof (induction files arbitrary: a b)
  case Nil
  then show ?case by simp
next
  case (Cons f files)
  show ?case
    using classify_file_doc [of mod_path rel xse_scriptfiles a b f]
    by (cases "classify_file mod_path rel xse_scriptfiles a b f")
       (auto simp: Let_def split_beta Cons.IH)
qed

lemma directory_plan_moves:
  "d \<in> set dirs \<Longrightarrow> lower d = ''fomod''
     \<Longrightarrow> MoveFomod rel d \<in> set (snd (directory_plan mod_path xse_scriptfiles (rel, dirs, files)))"
  "f \<in> set files \<Longrightarrow> is_doc f
     \<Longrightarrow> MoveFile rel f \<in> set (snd (directory_plan mod_path xse_scriptfiles (rel, dirs, files)))"
  using scan_dirs_fomods [of "path_str (parent (Path [] rel))" False dirs]
    scan_files_docs [of mod_path rel xse_scriptfiles False False files]
  by (auto simp: directory_plan_def Let_def split_beta)

lemma run_action_dry_move:
  assumes "test_mode w"
  shows "fst (run_action w mod_path backup_path (MoveFomod rel d))
           = [(cleanup, ''  - '' @ path_str (Path [] (rel @ [d])) @ ''\<newline>'')]"
    and "fst (run_action w mod_path backup_path (MoveFile rel f))
           = [(cleanup, ''  - '' @ path_str (Path [] (rel @ [f])) @ ''\<newline>'')]"
  using assms by (simp_all add: run_action_def move_fomod_async_def move_file_async_def Let_def)

lemma dry_run_action_events:
  assumes "test_mode w" and "dd \<in> set all_dirs_data"
    and "a \<in> set (snd (directory_plan mod_path xse_scriptfiles dd))"
    and "e \<in> set (fst (run_action w mod_path (backup_path_of w) a))"
  shows "e \<in> set (unpacked_events w mod_path xse_scriptfiles all_dirs_data)"
proof -
  have "dd \<in> set (concat (batches 50 all_dirs_data))"
    using assms(2) by (simp add: concat_batches)
  then obtain b where b: "b \<in> set (batches 50 all_dirs_data)" "dd \<in> set b" by auto
  have "e \<in> set (fst (run_batch w mod_path (backup_path_of w) xse_scriptfiles [] b))"
    using b(2) assms(3,4) by (auto simp: run_batch_dry [OF assms(1)])
  then show ?thesis
    using b(1) by (auto simp: unpacked_events_dry [OF assms(1)])
qed

lemma dry_run_relocation_events:
  assumes "test_mode w" and "(rel, dirs, files) \<in> set all_dirs_data"
  shows "d \<in> set dirs \<Longrightarrow> lower d = ''fomod''
           \<Longrightarrow> (cleanup, ''  - '' @ path_str (Path [] (rel @ [d])) @ ''\<newline>'')
                 \<in> set (unpacked_events w mod_path xse_scriptfiles all_dirs_data)"
    and "f \<in> set files \<Longrightarrow> is_doc f
           \<Longrightarrow> (cleanup, ''  - '' @ path_str (Path [] (rel @ [f])) @ ''\<newline>'')
                 \<in> set (unpacked_events w mod_path xse_scriptfiles all_dirs_data)"
  using dry_run_action_events [OF assms(1,2) directory_plan_moves(1) [of d dirs rel mod_path xse_scriptfiles files]]
    dry_run_action_events [OF assms(1,2) directory_plan_moves(2) [of f files rel mod_path xse_scriptfiles dirs]]
  by (simp_all add: run_action_dry_move [OF assms(1)])

lemma scan_report_dry:
  assumes "test_mode w" and "get_scan_settings w = (xse_acronym, xse_scriptfiles, Some mod_path)"
    and "walk w mod_path = Some all_dirs_data"
  shows "fst (scan_mods_unpacked w)
           = Inr (unpacked_report xse_acronym (unpacked_events w mod_path xse_scriptfiles all_dirs_data))"
  using assms by (simp add: scan_mods_unpacked_def unpacked_events_def Let_def split_beta)

lemma dry_run_records_relocations:
  assumes "test_mode w" and "get_scan_settings w = (xse_acronym, xse_scriptfiles, Some mod_path)"
    and "walk w mod_path = Some all_dirs_data" and "(rel, dirs, files) \<in> set all_dirs_data"
  shows "snd (scan_mods_unpacked w) = []"
    and "d \<in> set dirs \<Longrightarrow> lower d = ''fomod''
           \<Longrightarrow> contains (report_of (fst (scan_mods_unpacked w)))
                 (''  - '' @ path_str (Path [] (rel @ [d])) @ ''\<newline>'')"
    and "f \<in> set files \<Longrightarrow> is_doc f
           \<Longrightarrow> contains (report_of (fst (scan_mods_unpacked w)))
                 (''  - '' @ path_str (Path [] (rel @ [f])) @ ''\<newline>'')"
proof -
  show "snd (scan_mods_unpacked w) = []"
    by (rule dry_run_no_operations [OF assms(1)])
  show "contains (report_of (fst (scan_mods_unpacked w)))
          (''  - '' @ path_str (Path [] (rel @ [d])) @ ''\<newline>'')"
    if "d \<in> set dirs" "lower d = ''fomod''"
    using unpacked_events_reach_report [OF dry_run_relocation_events(1) [OF assms(1,4) that]]
    by (simp add: scan_report_dry [OF assms(1,2,3)] report_of_def)
  show "contains (report_of (fst (scan_mods_unpacked w)))
          (''  - '' @ path_str (Path [] (rel @ [f])) @ ''\<newline>'')"
    if "f \<in> set files" "is_doc f"
    using unpacked_events_reach_report [OF dry_run_relocation_events(2) [OF assms(1,4) that]]
    by (simp add: scan_report_dry [OF assms(1,2,3)] report_of_def)
qed


text \<open>
  Claim C8 fails on the code, against what the code sets out to do. The mod has a
  texture of odd width in its \<open>fomod\<close> folder. In dry-run mode nothing is done to the file
  system, and the report has the line of the folder and the line of the texture. With
  moves enabled the move of the folder succeeds and is made before the texture is opened:
  the report has the line of the folder and has lost the line of the texture, so that the
  two reports differ.
\<close>

theorem dry_run_report_differs:
  "snd (scan_mods_unpacked fomod_world) = []
   \<and> contains (report_of (fst (scan_mods_unpacked fomod_world))) fomod_line
   \<and> contains (report_of (fst (scan_mods_unpacked fomod_world))) fomod_texture_line
   \<and> snd (scan_mods_unpacked (moves_enabled fomod_world))
       = [Mkdir (backup_path_of fomod_world),
          Move (joinpath mods_root [''ModA'', ''fomod''])
               (joinpath (backup_path_of fomod_world) [''ModA'', ''fomod''])]
   \<and> contains (report_of (fst (scan_mods_unpacked (moves_enabled fomod_world)))) fomod_line
   \<and> \<not> contains (report_of (fst (scan_mods_unpacked (moves_enabled fomod_world)))) fomod_texture_line
   \<and> fst (scan_mods_unpacked fomod_world) \<noteq> fst (scan_mods_unpacked (moves_enabled fomod_world))"
  by code_simp


section \<open>A mod folder that cannot be opened\<close>



text \<open>
  An \<open>OSError\<close> that leaves the walk ends the scan with the one line of the handler, and
  every line an archive returns is in the report of the archive scan, whatever happens to
  the other archives.
\<close>

lemma walk_error_fatal:
  assumes "get_scan_settings w = (xse_acronym, xse_scriptfiles, Some mod_path)"
    and "walk w mod_path = None"
  shows "test_mode w \<or> mkdir_result w (backup_path_of w) = IoOk
           \<Longrightarrow> fst (scan_mods_unpacked w) = Inr ''Error: Could not access mod files''"
    and "path_exists w mod_path \<Longrightarrow> path_exists w (bsarch_path_of w)
           \<Longrightarrow> scan_mods_archived w = ''Error: Could not scan for BA2 files''"
  using assms by (auto simp: scan_mods_unpacked_def scan_mods_archived_def Let_def)


lemma archive_lines_reach_report:
  assumes "get_scan_settings w = (xse_acronym, xse_scriptfiles, Some mod_path)"
    and "walk w mod_path = Some all_dirs_data"
    and "path_exists w mod_path" and "path_exists w (bsarch_path_of w)"
    and "archive \<in> set (collect_ba2 mod_path all_dirs_data)"
    and "c \<in> set archived_keys"
    and "line \<in> issues_of (fst (process_single_ba2 w (bsarch_path_of w) xse_scriptfiles archive)) c"
  shows "contains (scan_mods_archived w) line"
proof -
  let ?results = "map (\<lambda>ba2. fst (process_single_ba2 w (bsarch_path_of w) xse_scriptfiles ba2))
                      (collect_ba2 mod_path all_dirs_data)"
  have r: "scan_mods_archived w
         = concat (archived_banner @ render_issues archived_keys (get_issue_messages xse_acronym ''archived'')
                     (merge_results ?results empty_issues))"
    using assms(1-4) by (simp add: scan_mods_archived_def Let_def)
  have mem: "fst (process_single_ba2 w (bsarch_path_of w) xse_scriptfiles archive) \<in> set ?results"
    using assms(5) by simp
  have fin: "\<And>r. r \<in> set ?results \<Longrightarrow> finite (issues_of r c)"
    using process_single_ba2_finite by auto
  show ?thesis
    unfolding r by (rule archived_report_contains [OF mem assms(7) assms(6) fin])
qed

text \<open>
  Claim C9 fails on the code, against what the code sets out to do. Both scans walk the
  mod folder inside a \<open>try\<close> whose handler returns the one line that the folder could not
  be accessed, and \<open>Path.walk\<close> does not raise for a folder it cannot open: it yields
  nothing. The scans go on with no directory and no archive, and return their banners
  alone, as for a mod folder in which nothing is wrong.
\<close>

theorem unreadable_root_gives_banner:
  "fst (scan_mods_unpacked (unreadable_root sample_world)) = Inr (concat unpacked_banner)
   \<and> concat unpacked_banner \<noteq> ''Error: Could not access mod files''
   \<and> scan_mods_archived (unreadable_root sample_world) = concat archived_banner
   \<and> concat archived_banner \<noteq> ''Error: Could not scan for BA2 files''"
  by code_simp

section \<open>The two archive scans\<close>












section \<open>Order of the contributions\<close>










lemma sample_lines_sorted:
  "category_lines (add_all (unpacked_events sample_world mods_root sample_scripts sample_tree) empty_issues)
     cleanup = [''  - ModA'' @ [bslash] @ ''fomod\<newline>'', ''  - ModA'' @ [bslash] @ ''readme.txt\<newline>'']"
  by code_simp


end
